theory Spec2Isabelle
  imports Complex_Main "HOL-Library.Log_Nat"
begin

section \<open>JavaScript values of a request body\<close>

text \<open>
  The handlers of \<^verbatim>\<open>politicians.js\<close> read fields of the parsed JSON body and test
  them with \<^verbatim>\<open>if (x)\<close> / \<^verbatim>\<open>!x\<close>. A body field is a JavaScript value; a missing
  field reads as \<^verbatim>\<open>undefined\<close>. A number is a double: a finite value, given by the
  rational it stands for (\<open>Finite 0\<close> is the positive zero), the negative zero, an
  infinity, or NaN. Arrays and objects are outside this model.
\<close>

datatype jsnum = Finite rat | NegZero | PosInf | NegInf | NaN

datatype jsval = JUndefined | JNull | JBool bool | JNumber jsnum | JString string

type_synonym body = "string \<Rightarrow> jsval"

fun truthy :: "jsval \<Rightarrow> bool" where
  "truthy JUndefined = False"
| "truthy JNull = False"
| "truthy (JBool b) = b"
| "truthy (JNumber (Finite r)) = (r \<noteq> 0)"
| "truthy (JNumber NegZero) = False"
| "truthy (JNumber PosInf) = True"
| "truthy (JNumber NegInf) = True"
| "truthy (JNumber NaN) = False"
| "truthy (JString s) = (s \<noteq> [])"

type_synonym timestamp = rat

section \<open>Domain records\<close>

record user =
  u_iden :: string
  u_facebookId :: string
  u_name :: jsval
  u_email :: jsval
  u_occupation :: jsval
  u_employer :: jsval
  u_streetAddress :: jsval
  u_cityStateZip :: jsval
  u_created :: timestamp
  u_modified :: timestamp

record event =
  e_iden :: string
  e_politician :: string
  supportPacs :: "string list"
  opposePacs :: "string list"

record pac =
  p_iden :: string

record contribution =
  c_iden :: string
  c_created :: timestamp
  c_modified :: timestamp
  c_chargeId :: string
  c_amount :: jsval
  c_event :: string
  c_pac :: string
  c_support :: bool

record fb_info =
  fb_id :: string
  fb_name :: jsval
  fb_email :: jsval

section \<open>The key/value store\<close>

text \<open>
  Modelled from the spec: the module \<^verbatim>\<open>redis-keys\<close> that names the keys is not among
  the sources. Each key the handlers use is a constructor, so that distinct names are
  distinct keys.
\<close>

datatype redis_key =
    Users
  | UserIdenToAccessToken
  | AccessTokenToUserIden
  | FacebookUserIdToUserIden
  | UserIdenToStripeCustomerId
  | Contributions
  | ContributionsSum
  | UserReverseChronologicalContributions string
  | EventContributionTotals string
  | PoliticianContributionTotals string
  | UserContributionsSum string

datatype redis_cmd =
    HGet redis_key string
  | HSet redis_key string string
  | LPush redis_key string
  | HIncrBy redis_key string jsval
  | IncrBy redis_key jsval

datatype err = Err string

datatype reply = RNull | RStr string | RInt int | REvent event | RPac pac

text \<open>
  Hash fields that hold text, lists, and the integer counters of \<^verbatim>\<open>HINCRBY\<close> and
  \<^verbatim>\<open>INCRBY\<close> (kept as integers, an absent counter being 0).
\<close>

record redis_db =
  hashes :: "redis_key \<Rightarrow> string \<Rightarrow> string option"
  lists :: "redis_key \<Rightarrow> string list"
  hash_counters :: "redis_key \<Rightarrow> string \<Rightarrow> int"
  counters :: "redis_key \<Rightarrow> int"

definition in_int64 :: "int \<Rightarrow> bool" where
  "in_int64 n = (- (2 ^ 63) \<le> n \<and> n < 2 ^ 63)"

definition digit_of :: "char \<Rightarrow> nat option" where
  "digit_of c = (let n = (of_char c :: nat) in if 48 \<le> n \<and> n \<le> 57 then Some (n - 48) else None)"

fun digits_value :: "int \<Rightarrow> string \<Rightarrow> int option" where
  "digits_value acc [] = Some acc"
| "digits_value acc (c # cs) =
     (case digit_of c of None \<Rightarrow> None | Some d \<Rightarrow> digits_value (acc * 10 + int d) cs)"

text \<open>
  The store reads the increment of \<^verbatim>\<open>HINCRBY\<close>/\<^verbatim>\<open>INCRBY\<close> as a signed 64-bit integer
  in canonical decimal form: an optional minus sign, no leading zero, no blanks.
\<close>

definition string2ll :: "string \<Rightarrow> int option" where
  "string2ll s =
     (if s = ''0'' then Some 0
      else case s of
          [] \<Rightarrow> None
        | c # cs \<Rightarrow>
            (if c = CHR ''-'' then
               (case cs of
                  [] \<Rightarrow> None
                | d # ds \<Rightarrow>
                    (if digit_of d = None \<or> digit_of d = Some 0 then None
                     else map_option uminus (digits_value 0 cs)))
             else if digit_of c = None \<or> digit_of c = Some 0 then None
             else digits_value 0 s))"

section \<open>Collaborators and the world\<close>

record charge_req =
  ch_amount :: jsnum
  ch_currency :: string
  ch_customer :: reply
  ch_eventIden :: string
  ch_pacIden :: string
  ch_support :: bool

datatype stripe_call =
    ChargesCreate charge_req
  | CustomersUpdate reply jsval
  | CustomersCreate jsval string

datatype io_req = Redis redis_cmd | GetEvent jsval | GetPac jsval

datatype io_event =
    Issued io_req
  | Completed io_req "err option"
  | StripeCalled stripe_call

datatype log_entry = ErrorLogged err | MissingEntry string redis_key

text \<open>
  What the handlers cannot decide themselves: the answers of the identity provider and
  of the payment gateway, the language's conversions of a string to a number and of a
  number to a string and its JSON text of a record, and (modelled from the spec: the module \<^verbatim>\<open>entities\<close> is not among
  the sources) the lookup of an event and of a PAC, which yields the record, nothing, or
  an error, and leaves the store as it is.
\<close>

record env =
  debug_token :: "jsval \<Rightarrow> (nat \<times> bool) option"
  graph_me :: "jsval \<Rightarrow> (nat \<times> fb_info option) option"
  stripe :: "stripe_call \<Rightarrow> err + string"
  getEvent :: "jsval \<Rightarrow> err + event option"
  getPac :: "jsval \<Rightarrow> err + pac option"
  StringToNumber :: "string \<Rightarrow> jsnum"
  NumberToString :: "jsnum \<Rightarrow> string"
  stringify_user :: "user \<Rightarrow> string"
  stringify_contribution :: "contribution \<Rightarrow> string"

text \<open>
  The client sends every argument of a command as its text, \<^verbatim>\<open>String(arg)\<close>; the
  text of a number is the language's, a parameter here.
\<close>

fun ToString :: "env \<Rightarrow> jsval \<Rightarrow> string" where
  "ToString E JUndefined = ''undefined''"
| "ToString E JNull = ''null''"
| "ToString E (JBool b) = (if b then ''true'' else ''false'')"
| "ToString E (JNumber n) = NumberToString E n"
| "ToString E (JString s) = s"

definition redis_integer_arg :: "env \<Rightarrow> jsval \<Rightarrow> int option" where
  "redis_integer_arg E a =
     (case string2ll (ToString E a) of
        None \<Rightarrow> None
      | Some n \<Rightarrow> if in_int64 n then Some n else None)"

fun redis_apply :: "env \<Rightarrow> redis_cmd \<Rightarrow> redis_db \<Rightarrow> err + (reply \<times> redis_db)" where
  "redis_apply E (HGet k f) d =
     Inr ((case hashes d k f of None \<Rightarrow> RNull | Some v \<Rightarrow> RStr v), d)"
| "redis_apply E (HSet k f v) d =
     Inr (RInt (if hashes d k f = None then 1 else 0),
          d\<lparr>hashes := (hashes d)(k := (hashes d k)(f \<mapsto> v))\<rparr>)"
| "redis_apply E (LPush k v) d =
     Inr (RInt (int (Suc (length (lists d k)))),
          d\<lparr>lists := (lists d)(k := v # lists d k)\<rparr>)"
| "redis_apply E (HIncrBy k f a) d =
     (case redis_integer_arg E a of
        None \<Rightarrow> Inl (Err ''ERR value is not an integer or out of range'')
      | Some n \<Rightarrow>
          (let v = hash_counters d k f + n in
           if in_int64 v
           then Inr (RInt v, d\<lparr>hash_counters := (hash_counters d)(k := (hash_counters d k)(f := v))\<rparr>)
           else Inl (Err ''ERR increment or decrement would overflow'')))"
| "redis_apply E (IncrBy k a) d =
     (case redis_integer_arg E a of
        None \<Rightarrow> Inl (Err ''ERR value is not an integer or out of range'')
      | Some n \<Rightarrow>
          (let v = counters d k + n in
           if in_int64 v
           then Inr (RInt v, d\<lparr>counters := (counters d)(k := v)\<rparr>)
           else Inl (Err ''ERR increment or decrement would overflow'')))"

text \<open>
  The values a handler draws while it runs: \<^verbatim>\<open>Date.now() / 1000\<close>,
  \<^verbatim>\<open>generateIden()\<close> and \<^verbatim>\<open>crypto.randomBytes(64).toString('hex')\<close>.
\<close>

record rnd =
  now :: timestamp
  generateIden :: string
  randomHex :: string

text \<open>
  The world a handler runs in: the store, the outcome the store connection will give to
  the next commands (\<open>Some e\<close>: the command fails with \<open>e\<close> and has no effect; an
  exhausted list: no failure), the I/O issued and completed so far, and what has been
  written with \<^verbatim>\<open>console.error\<close>.
\<close>

record world =
  db :: redis_db
  faults :: "err option list"
  trace :: "io_event list"
  console :: "log_entry list"

definition next_fault :: "world \<Rightarrow> err option" where
  "next_fault w = (case faults w of [] \<Rightarrow> None | f # fs \<Rightarrow> f)"

definition console_error :: "log_entry \<Rightarrow> world \<Rightarrow> world" where
  "console_error l w = w\<lparr>console := console w @ [l]\<rparr>"

definition start_io :: "io_req \<Rightarrow> world \<Rightarrow> world" where
  "start_io r w = w\<lparr>trace := trace w @ [Issued r]\<rparr>"

definition completed :: "io_req \<Rightarrow> err option \<Rightarrow> world \<Rightarrow> world" where
  "completed r e w = w\<lparr>trace := trace w @ [Completed r e]\<rparr>"

fun finish_io :: "env \<Rightarrow> io_req \<Rightarrow> world \<Rightarrow> (err option \<times> reply) \<times> world" where
  "finish_io E (Redis c) w =
     (let w' = w\<lparr>faults := tl (faults w)\<rparr> in
      case next_fault w of
        Some e \<Rightarrow> ((Some e, RNull), completed (Redis c) (Some e) w')
      | None \<Rightarrow>
          (case redis_apply E c (db w) of
             Inl e \<Rightarrow> ((Some e, RNull), completed (Redis c) (Some e) w')
           | Inr (r, d) \<Rightarrow> ((None, r), completed (Redis c) None (w'\<lparr>db := d\<rparr>))))"
| "finish_io E (GetEvent i) w =
     (case getEvent E i of
        Inl e \<Rightarrow> ((Some e, RNull), completed (GetEvent i) (Some e) w)
      | Inr None \<Rightarrow> ((None, RNull), completed (GetEvent i) None w)
      | Inr (Some ev) \<Rightarrow> ((None, REvent ev), completed (GetEvent i) None w))"
| "finish_io E (GetPac i) w =
     (case getPac E i of
        Inl e \<Rightarrow> ((Some e, RNull), completed (GetPac i) (Some e) w)
      | Inr None \<Rightarrow> ((None, RNull), completed (GetPac i) None w)
      | Inr (Some p) \<Rightarrow> ((None, RPac p), completed (GetPac i) None w))"

text \<open>A direct call \<^verbatim>\<open>redis.hget(..., function(err, reply) ...)\<close>.\<close>

definition redis_call :: "env \<Rightarrow> redis_cmd \<Rightarrow> world \<Rightarrow> (err option \<times> reply) \<times> world" where
  "redis_call E c w = finish_io E (Redis c) (start_io (Redis c) w)"

definition stripe_called :: "stripe_call \<Rightarrow> world \<Rightarrow> world" where
  "stripe_called c w = w\<lparr>trace := trace w @ [StripeCalled c]\<rparr>"

fun truthy_reply :: "reply \<Rightarrow> bool" where
  "truthy_reply RNull = False"
| "truthy_reply (RStr s) = (s \<noteq> [])"
| "truthy_reply (RInt n) = (n \<noteq> 0)"
| "truthy_reply (REvent ev) = True"
| "truthy_reply (RPac p) = True"

text \<open>The text of a reply of \<^verbatim>\<open>HGET\<close>, which is null or a string.\<close>

fun reply_text :: "reply \<Rightarrow> string" where
  "reply_text (RStr s) = s"
| "reply_text _ = []"

section \<open>The task runners of the async library\<close>

text \<open>
  Every task of the handlers issues one request and calls back from its reply, either
  \<^verbatim>\<open>callback(err, reply)\<close> or, after the charge,
  \<^verbatim>\<open>if (err) { console.error(err) } callback()\<close>.
\<close>

datatype cb_style = Forward | LogOnly

type_synonym task = "io_req \<times> cb_style"

fun call_back :: "cb_style \<Rightarrow> (err option \<times> reply) \<times> world \<Rightarrow> (err option \<times> reply) \<times> world" where
  "call_back Forward x = x"
| "call_back LogOnly ((e, r), w) =
     ((None, RNull), (case e of None \<Rightarrow> w | Some x \<Rightarrow> console_error (ErrorLogged x) w))"

definition run_task :: "env \<Rightarrow> task \<Rightarrow> world \<Rightarrow> (err option \<times> reply) \<times> world" where
  "run_task E t w = call_back (snd t) (finish_io E (fst t) (start_io (fst t) w))"

text \<open>
  \<^verbatim>\<open>async.series\<close>: a task is started once the previous one has called back; the first
  error ends the run and reaches the final callback.
\<close>

fun async_series :: "env \<Rightarrow> task list \<Rightarrow> world \<Rightarrow> (err option \<times> reply list) \<times> world" where
  "async_series E [] w = ((None, []), w)"
| "async_series E (t # ts) w =
     (case run_task E t w of
        ((Some e, r), w1) \<Rightarrow> ((Some e, [r]), w1)
      | ((None, r), w1) \<Rightarrow>
          (case async_series E ts w1 of ((e, rs), w2) \<Rightarrow> ((e, r # rs), w2)))"

text \<open>
  \<^verbatim>\<open>async.parallel\<close>: all tasks are started at once; the replies then come in, here
  in the order of the requests; the final callback gets the first error, or all results.
\<close>

fun finish_all :: "env \<Rightarrow> task list \<Rightarrow> world \<Rightarrow> (err option \<times> reply) list \<times> world" where
  "finish_all E [] w = ([], w)"
| "finish_all E (t # ts) w =
     (case call_back (snd t) (finish_io E (fst t) w) of
        (x, w1) \<Rightarrow> (case finish_all E ts w1 of (xs, w2) \<Rightarrow> (x # xs, w2)))"

fun first_error :: "(err option \<times> reply) list \<Rightarrow> err option" where
  "first_error [] = None"
| "first_error ((Some e, r) # xs) = Some e"
| "first_error ((None, r) # xs) = first_error xs"

definition async_parallel :: "env \<Rightarrow> task list \<Rightarrow> world \<Rightarrow> (err option \<times> reply list) \<times> world" where
  "async_parallel E ts w =
     (case finish_all E ts (fold start_io (map fst ts) w) of
        (xs, w1) \<Rightarrow> ((first_error xs, map snd xs), w1))"

text \<open>\<^verbatim>\<open>results[i]\<close>, which is \<^verbatim>\<open>undefined\<close> beyond the end.\<close>

definition result_at :: "reply list \<Rightarrow> nat \<Rightarrow> reply" where
  "result_at rs i = (if i < length rs then rs ! i else RNull)"

text \<open>\<^verbatim>\<open>Array.prototype.indexOf\<close>: the first position of the element, or -1.\<close>

fun indexOf :: "'a list \<Rightarrow> 'a \<Rightarrow> int" where
  "indexOf [] x = - 1"
| "indexOf (y # ys) x = (if y = x then 0 else (let i = indexOf ys x in if i = - 1 then - 1 else i + 1))"

section \<open>Numbers\<close>

fun ToNumber :: "env \<Rightarrow> jsval \<Rightarrow> jsnum" where
  "ToNumber E JUndefined = NaN"
| "ToNumber E JNull = Finite 0"
| "ToNumber E (JBool b) = Finite (if b then 1 else 0)"
| "ToNumber E (JNumber n) = n"
| "ToNumber E (JString s) = StringToNumber E s"

text \<open>
  The product of two doubles is the exact product rounded to the nearest double, ties to
  the even significand (IEEE 754, 53 bits, exponents from -1022 to 1023): a magnitude
  \<open>p / q\<close> with binary exponent \<open>e\<close> is rounded to a multiple of \<open>2 ^ (e - 52)\<close>; what
  reaches \<open>2 ^ 1024\<close> is an infinity.
\<close>

definition pow2 :: "int \<Rightarrow> rat" where
  "pow2 k = (if 0 \<le> k then 2 ^ nat k else 1 / 2 ^ nat (- k))"

definition scale :: "int \<Rightarrow> int \<Rightarrow> int" where
  "scale n k = n * 2 ^ nat k"

definition floor_log2 :: "int \<Rightarrow> int \<Rightarrow> int" where
  "floor_log2 p q =
     (let d = bitlen p - bitlen q in if scale q d \<le> scale p (- d) then d else d - 1)"

definition round_magnitude :: "int \<Rightarrow> int \<Rightarrow> rat" where
  "round_magnitude p q =
     (let e = max (floor_log2 p q) (- 1022);
          N = scale p (52 - e);
          D = scale q (e - 52);
          f = N div D;
          r = N mod D;
          n = (if 2 * r < D then f else if D < 2 * r then f + 1
               else if even f then f else f + 1)
      in of_int n * pow2 (e - 52))"

definition round_double :: "rat \<Rightarrow> jsnum" where
  "round_double x =
     (case quotient_of \<bar>x\<bar> of
        (p, q) \<Rightarrow>
          (let y = round_magnitude p q
           in if pow2 1024 \<le> y then (if x < 0 then NegInf else PosInf)
              else if y = 0 then (if x < 0 then NegZero else Finite 0)
              else Finite (if x < 0 then - y else y)))"

fun num_negative :: "jsnum \<Rightarrow> bool" where
  "num_negative (Finite r) = (r < 0)"
| "num_negative NegZero = True"
| "num_negative NegInf = True"
| "num_negative n = False"

fun num_zero :: "jsnum \<Rightarrow> bool" where
  "num_zero (Finite r) = (r = 0)"
| "num_zero NegZero = True"
| "num_zero n = False"

fun num_infinite :: "jsnum \<Rightarrow> bool" where
  "num_infinite PosInf = True"
| "num_infinite NegInf = True"
| "num_infinite n = False"

fun num_value :: "jsnum \<Rightarrow> rat" where
  "num_value (Finite r) = r"
| "num_value n = 0"

definition num_times :: "jsnum \<Rightarrow> jsnum \<Rightarrow> jsnum" where
  "num_times a b =
     (if a = NaN \<or> b = NaN then NaN
      else if (num_infinite a \<and> num_zero b) \<or> (num_zero a \<and> num_infinite b) then NaN
      else if num_infinite a \<or> num_infinite b
      then (if num_negative a \<noteq> num_negative b then NegInf else PosInf)
      else if num_zero a \<or> num_zero b
      then (if num_negative a \<noteq> num_negative b then NegZero else Finite 0)
      else round_double (num_value a * num_value b))"

text \<open>The operator \<^verbatim>\<open>*\<close>: both operands are converted to numbers first.\<close>

definition js_times :: "env \<Rightarrow> jsval \<Rightarrow> jsval \<Rightarrow> jsnum" where
  "js_times E a b = num_times (ToNumber E a) (ToNumber E b)"

section \<open>The handlers\<close>

datatype response = Status nat | AccessToken string | Uncaught string

subsection \<open>/v1/authenticate\<close>

datatype fb_result = FbThrows | FbCallback bool "fb_info option"

definition getFacebookUserInfo :: "env \<Rightarrow> jsval \<Rightarrow> fb_result" where
  "getFacebookUserInfo E facebookToken =
     (case debug_token E facebookToken of
        None \<Rightarrow> FbThrows
      | Some (statusCode, is_valid) \<Rightarrow>
          if statusCode = 200 \<and> is_valid then
            (case graph_me E facebookToken of
               None \<Rightarrow> FbThrows
             | Some (statusCode2, info) \<Rightarrow>
                 if statusCode2 = 200 then FbCallback True info else FbCallback False None)
          else FbCallback False None)"

definition new_user :: "rnd \<Rightarrow> fb_info \<Rightarrow> user" where
  "new_user R info =
     \<lparr>u_iden = generateIden R, u_facebookId = fb_id info, u_name = fb_name info,
      u_email = fb_email info, u_occupation = JUndefined, u_employer = JUndefined,
      u_streetAddress = JUndefined, u_cityStateZip = JUndefined,
      u_created = now R, u_modified = now R\<rparr>"

definition new_user_tasks :: "env \<Rightarrow> rnd \<Rightarrow> fb_info \<Rightarrow> task list" where
  "new_user_tasks E R info =
     (let user = new_user R info; accessToken = randomHex R in
      [(Redis (HSet Users (u_iden user) (stringify_user E user)), Forward),
       (Redis (HSet UserIdenToAccessToken (u_iden user) accessToken), Forward),
       (Redis (HSet AccessTokenToUserIden accessToken (u_iden user)), Forward),
       (Redis (HSet FacebookUserIdToUserIden (fb_id info) (u_iden user)), Forward)])"

definition authenticate :: "env \<Rightarrow> rnd \<Rightarrow> body \<Rightarrow> world \<Rightarrow> response \<times> world" where
  "authenticate E R b w =
     (case getFacebookUserInfo E (b ''facebookToken'') of
        FbThrows \<Rightarrow> (Uncaught ''TypeError'', w)
      | FbCallback valid None \<Rightarrow> (Status 400, w)
      | FbCallback valid (Some info) \<Rightarrow>
          if \<not> valid then (Status 400, w)
          else
            (case redis_call E (HGet FacebookUserIdToUserIden (fb_id info)) w of
               ((Some e, reply), w1) \<Rightarrow> (Status 500, console_error (ErrorLogged e) w1)
             | ((None, reply), w1) \<Rightarrow>
                 if truthy_reply reply then
                   (let userIden = reply_text reply in
                    case redis_call E (HGet UserIdenToAccessToken userIden) w1 of
                      ((Some e, reply2), w2) \<Rightarrow> (Status 500, console_error (ErrorLogged e) w2)
                    | ((None, reply2), w2) \<Rightarrow>
                        if truthy_reply reply2 then (AccessToken (reply_text reply2), w2)
                        else (Status 500,
                              console_error (MissingEntry userIden UserIdenToAccessToken) w2))
                 else
                   (case async_series E (new_user_tasks E R info) w1 of
                      ((Some e, results), w2) \<Rightarrow> (Status 500, console_error (ErrorLogged e) w2)
                    | ((None, results), w2) \<Rightarrow> (AccessToken (randomHex R), w2))))"

subsection \<open>/v1/update-profile\<close>

definition update_profile :: "env \<Rightarrow> rnd \<Rightarrow> user \<Rightarrow> body \<Rightarrow> world \<Rightarrow> (response \<times> user) \<times> world" where
  "update_profile E R user b w =
     (let u1 = (if truthy (b ''name'') then user\<lparr>u_name := b ''name''\<rparr> else user);
          u2 = (if truthy (b ''occupation'') then u1\<lparr>u_occupation := b ''occupation''\<rparr> else u1);
          u3 = (if truthy (b ''employer'') then u2\<lparr>u_employer := b ''employer''\<rparr> else u2);
          u4 = (if truthy (b ''streetAddress'') then u3\<lparr>u_streetAddress := b ''streetAddress''\<rparr> else u3);
          u5 = (if truthy (b ''cityStateZip'') then u4\<lparr>u_cityStateZip := b ''cityStateZip''\<rparr> else u4);
          u6 = u5\<lparr>u_modified := now R\<rparr>
      in case redis_call E (HSet Users (u_iden u6) (stringify_user E u6)) w of
           ((Some e, reply), w1) \<Rightarrow> ((Status 500, u6), console_error (ErrorLogged e) w1)
         | ((None, reply), w1) \<Rightarrow> ((Status 200, u6), w1))"

subsection \<open>/v1/set-card\<close>

text \<open>
  The gateway calls back with \<^verbatim>\<open>(err, null)\<close> when it fails. The callback of
  \<^verbatim>\<open>stripe.customers.create\<close> reads \<^verbatim>\<open>customer.id\<close> without looking at \<^verbatim>\<open>err\<close>,
  which throws on null.
\<close>

definition set_card :: "env \<Rightarrow> user \<Rightarrow> body \<Rightarrow> world \<Rightarrow> response \<times> world" where
  "set_card E user b w =
     (if \<not> truthy (b ''cardToken'') then (Status 400, w)
      else
        case redis_call E (HGet UserIdenToStripeCustomerId (u_iden user)) w of
          ((Some e, reply), w1) \<Rightarrow> (Status 500, console_error (ErrorLogged e) w1)
        | ((None, reply), w1) \<Rightarrow>
            if truthy_reply reply then
              (let call = CustomersUpdate reply (b ''cardToken''); w2 = stripe_called call w1 in
               case stripe E call of
                 Inl e \<Rightarrow> (Status 400, console_error (ErrorLogged e) w2)
               | Inr customer \<Rightarrow> (Status 200, w2))
            else
              (let call = CustomersCreate (b ''cardToken'') (u_iden user);
                   w2 = stripe_called call w1 in
               case stripe E call of
                 Inl e \<Rightarrow> (Uncaught ''TypeError'', w2)
               | Inr customer_id \<Rightarrow>
                   (case redis_call E (HSet UserIdenToStripeCustomerId (u_iden user) customer_id) w2 of
                      ((Some e, reply2), w3) \<Rightarrow> (Status 400, console_error (ErrorLogged e) w3)
                    | ((None, reply2), w3) \<Rightarrow> (Status 200, w3))))"

subsection \<open>/v1/create-contribution\<close>

definition resolve_tasks :: "user \<Rightarrow> body \<Rightarrow> task list" where
  "resolve_tasks user b =
     [(Redis (HGet UserIdenToStripeCustomerId (u_iden user)), Forward),
      (GetEvent (b ''eventIden''), Forward),
      (GetPac (b ''pacIden''), Forward)]"

definition new_contribution :: "rnd \<Rightarrow> string \<Rightarrow> body \<Rightarrow> event \<Rightarrow> pac \<Rightarrow> bool \<Rightarrow> contribution" where
  "new_contribution R charge_id b ev p support =
     \<lparr>c_iden = generateIden R, c_created = now R, c_modified = now R, c_chargeId = charge_id,
      c_amount = b ''amount'', c_event = e_iden ev, c_pac = p_iden p, c_support = support\<rparr>"

definition support_key :: "bool \<Rightarrow> string" where
  "support_key support = (if support then ''support'' else ''oppose'')"

definition record_tasks :: "env \<Rightarrow> user \<Rightarrow> event \<Rightarrow> bool \<Rightarrow> contribution \<Rightarrow> task list" where
  "record_tasks E user ev support c =
     [(Redis (HSet Contributions (c_iden c) (stringify_contribution E c)), LogOnly),
      (Redis (LPush (UserReverseChronologicalContributions (u_iden user)) (c_iden c)), LogOnly),
      (Redis (HIncrBy (EventContributionTotals (e_iden ev)) (support_key support) (c_amount c)), LogOnly),
      (Redis (HIncrBy (PoliticianContributionTotals (e_politician ev)) (support_key support) (c_amount c)), LogOnly),
      (Redis (IncrBy ContributionsSum (c_amount c)), LogOnly),
      (Redis (IncrBy (UserContributionsSum (u_iden user)) (c_amount c)), LogOnly)]"

definition charge_request :: "env \<Rightarrow> body \<Rightarrow> reply \<Rightarrow> event \<Rightarrow> pac \<Rightarrow> bool \<Rightarrow> charge_req" where
  "charge_request E b customerId ev p support =
     \<lparr>ch_amount = js_times E (b ''amount'') (JNumber (Finite 100)), ch_currency = ''usd'',
      ch_customer = customerId, ch_eventIden = e_iden ev, ch_pacIden = p_iden p,
      ch_support = support\<rparr>"

text \<open>The call of \<^verbatim>\<open>stripe.charges.create\<close> and its callback.\<close>

definition charge_and_record ::
  "env \<Rightarrow> rnd \<Rightarrow> user \<Rightarrow> body \<Rightarrow> reply \<Rightarrow> event \<Rightarrow> pac \<Rightarrow> bool \<Rightarrow> world \<Rightarrow> response \<times> world" where
  "charge_and_record E R user b customerId ev p support w =
     (let call = ChargesCreate (charge_request E b customerId ev p support);
          w1 = stripe_called call w in
      case stripe E call of
        Inl e \<Rightarrow> (Status 400, console_error (ErrorLogged e) w1)
      | Inr charge_id \<Rightarrow>
          (let c = new_contribution R charge_id b ev p support in
           case async_series E (record_tasks E user ev support c) w1 of
             ((e, results), w2) \<Rightarrow> (Status 200, w2)))"

definition create_contribution :: "env \<Rightarrow> rnd \<Rightarrow> user \<Rightarrow> body \<Rightarrow> world \<Rightarrow> response \<times> world" where
  "create_contribution E R user b w =
     (if \<not> truthy (b ''eventIden'') \<or> \<not> truthy (b ''pacIden'') \<or> \<not> truthy (b ''amount'')
      then (Status 400, w)
      else
        case async_parallel E (resolve_tasks user b) w of
          ((Some e, results), w1) \<Rightarrow> (Status 500, console_error (ErrorLogged e) w1)
        | ((None, results), w1) \<Rightarrow>
            (let customerId = result_at results 0 in
             if \<not> truthy_reply customerId then (Status 400, w1)
             else
               let ev = result_at results 1 in
               if \<not> truthy_reply ev then (Status 400, w1)
               else
                 let p = result_at results 2 in
                 if \<not> truthy_reply p then (Status 400, w1)
                 else
                   (case ev of
                      REvent event \<Rightarrow>
                        (case p of
                           RPac pac \<Rightarrow>
                             if indexOf (supportPacs event) (p_iden pac) \<noteq> - 1
                             then charge_and_record E R user b customerId event pac True w1
                             else if indexOf (opposePacs event) (p_iden pac) \<noteq> - 1
                             then charge_and_record E R user b customerId event pac False w1
                             else (Status 400, w1)
                         | _ \<Rightarrow> (Status 400, w1))
                    | _ \<Rightarrow> (Uncaught ''TypeError'', w1))))"

section \<open>Observations on a run\<close>

text \<open>The I/O a handler added to the trace, the charges among it and the store commands.\<close>

definition new_events :: "world \<Rightarrow> world \<Rightarrow> io_event list" where
  "new_events w w' = drop (length (trace w)) (trace w')"

fun charges :: "io_event list \<Rightarrow> charge_req list" where
  "charges [] = []"
| "charges (StripeCalled (ChargesCreate r) # es) = r # charges es"
| "charges (e # es) = charges es"

fun issued :: "io_event list \<Rightarrow> redis_cmd list" where
  "issued [] = []"
| "issued (Issued (Redis c) # es) = c # issued es"
| "issued (e # es) = issued es"

fun is_write :: "redis_cmd \<Rightarrow> bool" where
  "is_write (HGet k f) = False"
| "is_write c = True"

text \<open>The errors with which requests completed, and a trace without its outcomes.\<close>

fun failures :: "io_event list \<Rightarrow> err list" where
  "failures [] = []"
| "failures (Completed r (Some e) # es) = e # failures es"
| "failures (e # es) = failures es"

datatype step = Start io_req | End io_req | Call stripe_call

fun step_of :: "io_event \<Rightarrow> step" where
  "step_of (Issued r) = Start r"
| "step_of (Completed r e) = End r"
| "step_of (StripeCalled c) = Call c"

text \<open>One request after the other: each is started once the one before has ended.\<close>

fun one_by_one :: "io_req list \<Rightarrow> step list" where
  "one_by_one [] = []"
| "one_by_one (r # rs) = Start r # End r # one_by_one rs"

text \<open>The six writes that record a contribution, as store commands.\<close>

definition record_cmds :: "env \<Rightarrow> user \<Rightarrow> event \<Rightarrow> bool \<Rightarrow> contribution \<Rightarrow> redis_cmd list" where
  "record_cmds E user ev support c =
     [HSet Contributions (c_iden c) (stringify_contribution E c),
      LPush (UserReverseChronologicalContributions (u_iden user)) (c_iden c),
      HIncrBy (EventContributionTotals (e_iden ev)) (support_key support) (c_amount c),
      HIncrBy (PoliticianContributionTotals (e_politician ev)) (support_key support) (c_amount c),
      IncrBy ContributionsSum (c_amount c),
      IncrBy (UserContributionsSum (u_iden user)) (c_amount c)]"

text \<open>
  Requests fired together: all of them are started before any of them has ended, so
  that none waits for another. This is what \<^verbatim>\<open>async.parallel\<close> does.
\<close>

fun starts_of :: "step list \<Rightarrow> io_req list" where
  "starts_of [] = []"
| "starts_of (Start r # ss) = r # starts_of ss"
| "starts_of (s # ss) = starts_of ss"

fun fired_together :: "io_req list \<Rightarrow> step list \<Rightarrow> bool" where
  "fired_together rs [] = True"
| "fired_together rs (End r # ss) =
     (if r \<in> set rs then filter (\<lambda>q. q \<in> set rs) (starts_of ss) = []
      else fired_together rs ss)"
| "fired_together rs (s # ss) = fired_together rs ss"

text \<open>The outcome the store connection will give to the \<open>n\<close>-th of the next commands.\<close>

fun nth_fault :: "err option list \<Rightarrow> nat \<Rightarrow> err option" where
  "nth_fault [] n = None"
| "nth_fault (f # fs) 0 = f"
| "nth_fault (f # fs) (Suc n) = nth_fault fs n"

text \<open>The profile after a patch, field by field.\<close>

definition patched :: "rnd \<Rightarrow> user \<Rightarrow> body \<Rightarrow> user" where
  "patched R user b = user
     \<lparr>u_name := (if truthy (b ''name'') then b ''name'' else u_name user),
      u_occupation := (if truthy (b ''occupation'') then b ''occupation'' else u_occupation user),
      u_employer := (if truthy (b ''employer'') then b ''employer'' else u_employer user),
      u_streetAddress :=
        (if truthy (b ''streetAddress'') then b ''streetAddress'' else u_streetAddress user),
      u_cityStateZip :=
        (if truthy (b ''cityStateZip'') then b ''cityStateZip'' else u_cityStateZip user),
      u_modified := now R\<rparr>"

text \<open>The four writes that register a new user, as store commands.\<close>

definition new_user_cmds :: "env \<Rightarrow> rnd \<Rightarrow> fb_info \<Rightarrow> redis_cmd list" where
  "new_user_cmds E R info =
     [HSet Users (generateIden R) (stringify_user E (new_user R info)),
      HSet UserIdenToAccessToken (generateIden R) (randomHex R),
      HSet AccessTokenToUserIden (randomHex R) (generateIden R),
      HSet FacebookUserIdToUserIden (fb_id info) (generateIden R)]"

text \<open>
  The order of these writes in the words of the specification: user record, token to
  iden, iden to token, external identity to iden.
\<close>

definition claimed_new_user_cmds :: "env \<Rightarrow> rnd \<Rightarrow> fb_info \<Rightarrow> redis_cmd list" where
  "claimed_new_user_cmds E R info =
     [HSet Users (generateIden R) (stringify_user E (new_user R info)),
      HSet AccessTokenToUserIden (randomHex R) (generateIden R),
      HSet UserIdenToAccessToken (generateIden R) (randomHex R),
      HSet FacebookUserIdToUserIden (fb_id info) (generateIden R)]"

section \<open>A scenario\<close>

text \<open>
  The scenario of the specification: user \<open>u1\<close>, event \<open>E1\<close>, PAC \<open>P1\<close>. The
  event's lists, the gateway's answers, the user's billing customer and the failures of
  the store are left open. The conversions between strings and numbers are given at the
  values the scenario uses.
\<close>

definition scenario_user :: user where
  "scenario_user =
     \<lparr>u_iden = ''u1'', u_facebookId = ''fb1'', u_name = JString ''Ann'',
      u_email = JString ''ann@example.org'', u_occupation = JString ''Baker'',
      u_employer = JUndefined, u_streetAddress = JUndefined, u_cityStateZip = JUndefined,
      u_created = 1000, u_modified = 1000\<rparr>"

definition scenario_event :: "string list \<Rightarrow> string list \<Rightarrow> event" where
  "scenario_event sl ol =
     \<lparr>e_iden = ''E1'', e_politician = ''pol1'', supportPacs = sl, opposePacs = ol\<rparr>"

definition scenario_env :: "event \<Rightarrow> (stripe_call \<Rightarrow> err + string) \<Rightarrow> env" where
  "scenario_env ev gateway =
     \<lparr>debug_token = (\<lambda>t. if t = JString ''fbtoken'' then Some (200, True) else Some (200, False)),
      graph_me = (\<lambda>t. Some (200, Some \<lparr>fb_id = ''fb1'', fb_name = JString ''Ann'',
                                        fb_email = JString ''ann@example.org''\<rparr>)),
      stripe = gateway,
      getEvent = (\<lambda>i. if i = JString ''E1'' then Inr (Some ev) else Inr None),
      getPac = (\<lambda>i. if i = JString ''P1'' then Inr (Some \<lparr>p_iden = ''P1''\<rparr>) else Inr None),
      StringToNumber = (\<lambda>s. if s = ''25'' then Finite 25 else NaN),
      NumberToString =
        (\<lambda>n. if n = Finite 25 then ''25'' else if n = Finite (- 5) then ''-5''
             else if n = Finite 123456789012345680 then ''123456789012345680'' else ''NaN''),
      stringify_user = (\<lambda>u. u_iden u),
      stringify_contribution = (\<lambda>c. c_iden c)\<rparr>"

definition accepting :: "stripe_call \<Rightarrow> err + string" where
  "accepting c = (case c of ChargesCreate r \<Rightarrow> Inr ''ch_1'' | _ \<Rightarrow> Inr ''cus_1'')"

definition declining :: "stripe_call \<Rightarrow> err + string" where
  "declining c = Inl (Err ''card_declined'')"

definition empty_db :: redis_db where
  "empty_db = \<lparr>hashes = (\<lambda>k f. None), lists = (\<lambda>k. []), hash_counters = (\<lambda>k f. 0),
              counters = (\<lambda>k. 0)\<rparr>"

definition scenario_world :: "string option \<Rightarrow> err option list \<Rightarrow> world" where
  "scenario_world customer fs =
     \<lparr>db = empty_db\<lparr>hashes := (hashes empty_db)
            (UserIdenToStripeCustomerId := (\<lambda>f. if f = ''u1'' then customer else None))\<rparr>,
      faults = fs, trace = [], console = []\<rparr>"

definition scenario_rnd :: rnd where
  "scenario_rnd = \<lparr>now = 2000, generateIden = ''c1'', randomHex = ''ab12''\<rparr>"

definition scenario_body :: "jsval \<Rightarrow> body" where
  "scenario_body amount =
     (\<lambda>f. if f = ''eventIden'' then JString ''E1'' else if f = ''pacIden'' then JString ''P1''
          else if f = ''amount'' then amount else if f = ''cardToken'' then JString ''tok_1''
          else if f = ''facebookToken'' then JString ''fbtoken'' else JUndefined)"

definition scenario_run ::
  "string list \<Rightarrow> string list \<Rightarrow> (stripe_call \<Rightarrow> err + string) \<Rightarrow> jsval \<Rightarrow> err option list
     \<Rightarrow> response \<times> world" where
  "scenario_run sl ol gateway amount fs =
     create_contribution (scenario_env (scenario_event sl ol) gateway) scenario_rnd scenario_user
       (scenario_body amount) (scenario_world (Some ''cus_1'') fs)"

definition scenario_charge :: "jsnum \<Rightarrow> bool \<Rightarrow> charge_req" where
  "scenario_charge a s =
     \<lparr>ch_amount = a, ch_currency = ''usd'', ch_customer = RStr ''cus_1'', ch_eventIden = ''E1'',
      ch_pacIden = ''P1'', ch_support = s\<rparr>"

definition scenario_lookups :: "io_event list" where
  "scenario_lookups =
     [Issued (Redis (HGet UserIdenToStripeCustomerId ''u1'')),
      Issued (GetEvent (JString ''E1'')), Issued (GetPac (JString ''P1'')),
      Completed (Redis (HGet UserIdenToStripeCustomerId ''u1'')) None,
      Completed (GetEvent (JString ''E1'')) None, Completed (GetPac (JString ''P1'')) None]"

definition scenario_writes :: "jsval \<Rightarrow> bool \<Rightarrow> redis_cmd list" where
  "scenario_writes amount s =
     [HSet Contributions ''c1'' ''c1'',
      LPush (UserReverseChronologicalContributions ''u1'') ''c1'',
      HIncrBy (EventContributionTotals ''E1'') (support_key s) amount,
      HIncrBy (PoliticianContributionTotals ''pol1'') (support_key s) amount,
      IncrBy ContributionsSum amount,
      IncrBy (UserContributionsSum ''u1'') amount]"

definition name_patch :: "string \<Rightarrow> body" where
  "name_patch x = (\<lambda>f. if f = ''name'' then JString x else JUndefined)"

definition scenario_info :: fb_info where
  "scenario_info = \<lparr>fb_id = ''fb1'', fb_name = JString ''Ann'', fb_email = JString ''ann@example.org''\<rparr>"

definition later_rnd :: rnd where
  "later_rnd = \<lparr>now = 3000, generateIden = ''c2'', randomHex = ''ff00''\<rparr>"

definition scenario_login :: "err option list \<Rightarrow> response \<times> world" where
  "scenario_login fs =
     authenticate (scenario_env (scenario_event [] []) accepting) scenario_rnd
       (scenario_body JUndefined) (scenario_world None fs)"

section \<open>Properties of numbers\<close>

lemma bitlen_one: "bitlen 1 = 1"
  by (simp add: bitlen_alt_def)

lemma round_magnitude_int:
  assumes "0 < p" and "p < 2 ^ 53"
  shows "round_magnitude p 1 = of_int p"
proof -
  let ?d = "bitlen p - 1"
  from bitlen_bounds [OF assms(1)] have lo: "2 ^ nat ?d \<le> p" by simp
  have b1: "1 \<le> bitlen p" using assms(1) by (simp add: bitlen_alt_def)
  have lt: "(2::int) ^ nat ?d < 2 ^ 53" using lo assms(2) by linarith
  have "nat ?d < 53" by (rule power_less_imp_less_exp [OF _ lt]) simp
  then have d52: "?d \<le> 52" by linarith
  have d0: "0 \<le> ?d" using b1 by simp
  have fl: "floor_log2 p 1 = ?d"
    using lo d0 by (simp add: floor_log2_def scale_def bitlen_one Let_def)
  have e: "max ?d (- 1022) = ?d" using d0 by simp
  have D: "scale 1 (?d - 52) = 1" using d52 by (simp add: scale_def)
  have pw: "rat_of_int (2 ^ nat (52 - ?d)) * pow2 (?d - 52) = 1"
  proof (cases "?d = 52")
    case True
    then show ?thesis by (simp add: pow2_def)
  next
    case False
    with d52 have "?d - 52 < 0" by simp
    then have "pow2 (?d - 52) = 1 / 2 ^ nat (52 - ?d)" by (simp add: pow2_def)
    then show ?thesis by simp
  qed
  have "round_magnitude p 1 = rat_of_int (scale p (52 - ?d)) * pow2 (?d - 52)"
    unfolding round_magnitude_def fl e D Let_def by simp
  also have "\<dots> = rat_of_int p * (rat_of_int (2 ^ nat (52 - ?d)) * pow2 (?d - 52))"
    by (simp add: scale_def)
  also have "\<dots> = rat_of_int p" by (simp only: pw mult_1_right)
  finally show ?thesis .
qed

lemma quotient_of_abs_int: "quotient_of \<bar>rat_of_int m\<bar> = (\<bar>m\<bar>, 1)"
proof -
  have "\<bar>rat_of_int m\<bar> = Rat.of_int \<bar>m\<bar>" by (simp add: Rat.of_int_def)
  then show ?thesis by (simp only: quotient_of_int)
qed

lemma round_double_int:
  assumes "m \<noteq> 0" and "\<bar>m\<bar> < 2 ^ 53"
  shows "round_double (of_int m) = Finite (of_int m)"
proof -
  have p: "0 < \<bar>m\<bar>" using assms(1) by simp
  note y = round_magnitude_int [OF p assms(2)]
  have "rat_of_int \<bar>m\<bar> < 2 ^ 53" using assms(2)
    by (metis of_int_less_numeral_power_cancel_iff)
  moreover have "(2::rat) ^ 53 \<le> pow2 1024"
    unfolding pow2_def by (simp add: power_increasing)
  ultimately have small: "\<not> pow2 1024 \<le> rat_of_int \<bar>m\<bar>" by linarith
  have nz: "rat_of_int \<bar>m\<bar> \<noteq> 0" using assms(1) by simp
  have "round_double (of_int m) = Finite (if rat_of_int m < 0 then - rat_of_int \<bar>m\<bar> else rat_of_int \<bar>m\<bar>)"
    unfolding round_double_def quotient_of_abs_int prod.case Let_def y
    using small nz by (simp only: if_False)
  also have "(if rat_of_int m < 0 then - rat_of_int \<bar>m\<bar> else rat_of_int \<bar>m\<bar>) = rat_of_int m"
    by simp
  finally show ?thesis .
qed


lemma bitlen_eq:
  assumes "2 ^ (nat k - 1) \<le> x" and "x < 2 ^ nat k" and "0 < k"
  shows "bitlen x = k"
proof -
  have "bitlen x \<le> k" using assms(2,3) by (simp add: bitlen_le_iff_power)
  moreover have "k \<le> bitlen x" using assms(1) by (simp add: bitlen_ge_iff_power)
  ultimately show ?thesis by linarith
qed

lemma bitlen_big: "bitlen 12345678901234568000 = 64"
  by (rule bitlen_eq) simp_all

lemma round_double_large: "round_double 12345678901234568000 = Finite 12345678901234567168"
  by (simp add: round_double_def round_magnitude_def floor_log2_def scale_def pow2_def
        bitlen_big bitlen_one Let_def)

lemma times_100_int:
  assumes "m \<noteq> 0" and "\<bar>m * 100\<bar> < 2 ^ 53"
  shows "num_times (Finite (of_int m)) (Finite 100) = Finite (of_int (m * 100))"
proof -
  have "m * 100 \<noteq> 0" using assms(1) by simp
  from round_double_int [OF this assms(2)] assms(1) show ?thesis
    by (simp add: num_times_def)
qed

lemma scenario_numbers:
  "num_times (Finite 25) (Finite 100) = Finite 2500"
  "num_times (Finite (- 5)) (Finite 100) = Finite (- 500)"
  "num_times NaN (Finite 100) = NaN"
  "num_times (Finite 123456789012345680) (Finite 100) = Finite 12345678901234567168"
  using times_100_int [of 25] times_100_int [of "- 5"] round_double_large
  by (simp_all add: num_times_def)

lemma scenario_texts:
  "string2ll ''25'' = Some 25"
  by (simp add: string2ll_def digit_of_def)

section \<open>Properties of the task runners\<close>


lemma indexOf_ge: "- 1 \<le> indexOf xs x"
  by (induction xs) (auto simp: Let_def)

lemma indexOf_mem: "(indexOf xs x \<noteq> - 1) = (x \<in> set xs)"
proof (induction xs)
  case Nil
  then show ?case by simp
next
  case (Cons y ys)
  have "- 1 \<le> indexOf ys x" by (rule indexOf_ge)
  with Cons show ?case by (auto simp: Let_def)
qed

lemma finish_io_shape:
  "finish_io E r w = (x, w') \<Longrightarrow>
     trace w' = trace w @ [Completed r (fst x)] \<and> console w' = console w"
  by (cases r) (auto simp: completed_def Let_def split: option.splits sum.splits prod.splits)

lemma finish_io_faults:
  "finish_io E (Redis c) w = (x, w') \<Longrightarrow> faults w' = tl (faults w)"
  by (auto simp: completed_def Let_def split: option.splits sum.splits prod.splits)

lemma finish_io_read:
  "\<not> is_write c \<Longrightarrow> finish_io E (Redis c) w = (x, w') \<Longrightarrow> db w' = db w"
  by (cases c) (auto simp: completed_def Let_def split: option.splits sum.splits prod.splits)

lemma charges_append: "charges (xs @ ys) = charges xs @ charges ys"
  by (induction xs rule: charges.induct) auto

lemma failures_append: "failures (xs @ ys) = failures xs @ failures ys"
  by (induction xs rule: failures.induct) auto

lemma issued_append: "issued (xs @ ys) = issued xs @ issued ys"
  by (induction xs rule: issued.induct) auto

lemma run_task_LogOnly:
  assumes "run_task E (q, LogOnly) w = (x, w')"
  shows "\<exists>e0. x = (None, RNull) \<and> trace w' = trace w @ [Issued q, Completed q e0]
          \<and> console w' = console w @ map ErrorLogged (failures [Completed q e0])"
proof -
  obtain e0 r0 w0 where f: "finish_io E q (start_io q w) = ((e0, r0), w0)"
    by (metis surj_pair)
  from finish_io_shape [OF f]
  have t: "trace w0 = trace w @ [Issued q, Completed q e0]" and c: "console w0 = console w"
    by (simp_all add: start_io_def)
  from assms f have "x = (None, RNull)"
    and w': "w' = (case e0 of None \<Rightarrow> w0 | Some y \<Rightarrow> console_error (ErrorLogged y) w0)"
    by (simp_all add: run_task_def)
  moreover from w' t have "trace w' = trace w @ [Issued q, Completed q e0]"
    by (cases e0) (simp_all add: console_error_def)
  moreover from w' c have "console w' = console w @ map ErrorLogged (failures [Completed q e0])"
    by (cases e0) (simp_all add: console_error_def)
  ultimately show ?thesis by blast
qed

lemma series_LogOnly:
  assumes "\<forall>t\<in>set ts. snd t = LogOnly" and "async_series E ts w = ((e, rs), w')"
  shows "\<exists>evs. e = None \<and> trace w' = trace w @ evs
          \<and> map step_of evs = one_by_one (map fst ts)
          \<and> console w' = console w @ map ErrorLogged (failures evs)"
  using assms
proof (induction ts arbitrary: w e rs w')
  case Nil
  then show ?case by simp
next
  case (Cons t ts)
  obtain q where t: "t = (q, LogOnly)" using Cons.prems(1) by (cases t) simp
  obtain x w1 where r: "run_task E (q, LogOnly) w = (x, w1)" by (metis surj_pair)
  from run_task_LogOnly [OF r] obtain e0 where x: "x = (None, RNull)"
    and t1: "trace w1 = trace w @ [Issued q, Completed q e0]"
    and c1: "console w1 = console w @ map ErrorLogged (failures [Completed q e0])"
    by blast
  obtain e2 rs2 w2 where s: "async_series E ts w1 = ((e2, rs2), w2)" by (metis surj_pair)
  from Cons.prems(1) have "\<forall>t\<in>set ts. snd t = LogOnly" by simp
  from Cons.IH [OF this s] obtain evs where e2: "e2 = None"
    and t2: "trace w2 = trace w1 @ evs"
    and m2: "map step_of evs = one_by_one (map fst ts)"
    and c2: "console w2 = console w1 @ map ErrorLogged (failures evs)" by blast
  from Cons.prems(2) t r x s have "e = e2" and "w' = w2" by simp_all
  with e2 t1 t2 m2 c1 c2 t
  have "e = None \<and> trace w' = trace w @ ([Issued q, Completed q e0] @ evs)
     \<and> map step_of ([Issued q, Completed q e0] @ evs) = one_by_one (map fst (t # ts))
     \<and> console w' = console w @ map ErrorLogged (failures ([Issued q, Completed q e0] @ evs))"
    by (cases e0) (simp_all add: failures_append)
  then show ?case by blast
qed


lemma async_parallel3:
  "async_parallel E [(a, Forward), (b, Forward), (c, Forward)] w =
     (case finish_io E a (w\<lparr>trace := trace w @ [Issued a, Issued b, Issued c]\<rparr>) of
        (x, w1) \<Rightarrow> (case finish_io E b w1 of
          (y, w2) \<Rightarrow> (case finish_io E c w2 of
            (z, w3) \<Rightarrow> ((first_error [x, y, z], [snd x, snd y, snd z]), w3))))"
  by (simp add: async_parallel_def start_io_def split: prod.splits)

lemma finish_io_lookup:
  "finish_io E (GetEvent i) w = (x, w') \<Longrightarrow> db w' = db w \<and> faults w' = faults w"
  "finish_io E (GetPac i) w = (x, w') \<Longrightarrow> db w' = db w \<and> faults w' = faults w"
  by (auto simp: completed_def split: option.splits sum.splits)

lemma resolve_shape:
  assumes "async_parallel E (resolve_tasks user b) w = ((e, rs), w1)"
  shows "db w1 = db w \<and> console w1 = console w \<and> faults w1 = tl (faults w)
     \<and> length rs = 3
     \<and> (\<exists>e0 e1 e2. trace w1 = trace w @
           [Issued (Redis (HGet UserIdenToStripeCustomerId (u_iden user))),
            Issued (GetEvent (b ''eventIden'')), Issued (GetPac (b ''pacIden'')),
            Completed (Redis (HGet UserIdenToStripeCustomerId (u_iden user))) e0,
            Completed (GetEvent (b ''eventIden'')) e1, Completed (GetPac (b ''pacIden'')) e2]
           \<and> e = first_error [(e0, RNull), (e1, RNull), (e2, RNull)])"
proof -
  let ?a = "Redis (HGet UserIdenToStripeCustomerId (u_iden user))"
  let ?b = "GetEvent (b ''eventIden'')"
  let ?c = "GetPac (b ''pacIden'')"
  let ?w0 = "w\<lparr>trace := trace w @ [Issued ?a, Issued ?b, Issued ?c]\<rparr>"
  obtain x wa where a: "finish_io E ?a ?w0 = (x, wa)" by (metis surj_pair)
  obtain y wb where b: "finish_io E ?b wa = (y, wb)" by (metis surj_pair)
  obtain z wc where c: "finish_io E ?c wb = (z, wc)" by (metis surj_pair)
  from assms a b c have e: "e = first_error [x, y, z]" and rs: "rs = [snd x, snd y, snd z]"
    and w1: "w1 = wc"
    by (simp_all add: resolve_tasks_def async_parallel3)
  have "db wa = db w" using finish_io_read [OF _ a] by simp
  moreover have "faults wa = tl (faults w)" using finish_io_faults [OF a] by simp
  moreover note finish_io_lookup(1) [OF b] finish_io_lookup(2) [OF c]
    finish_io_shape [OF a] finish_io_shape [OF b] finish_io_shape [OF c]
  moreover have "first_error [x, y, z] = first_error [(fst x, RNull), (fst y, RNull), (fst z, RNull)]"
    by (cases x; cases y; cases z; cases "fst x"; cases "fst y"; cases "fst z") auto
  ultimately show ?thesis using e rs w1 by simp
qed



lemma one_by_one_charges: "map step_of evs = one_by_one rs \<Longrightarrow> charges evs = []"
proof (induction rs arbitrary: evs)
  case Nil
  then show ?case by simp
next
  case (Cons r rs)
  then obtain a b evs' where "evs = a # b # evs'" "step_of a = Start r" "step_of b = End r"
    "map step_of evs' = one_by_one rs"
    by (cases evs; cases "tl evs") auto
  with Cons.IH show ?case by (cases a; cases b) auto
qed

lemma length3: "length rs = 3 \<Longrightarrow> \<exists>a b c. rs = [a, b, c]"
  by (cases rs; cases "tl rs"; cases "tl (tl rs)") auto

lemma charge_and_record_shape:
  assumes "charge_and_record E R user b cid ev p s w1 = (resp, w')"
  shows "\<exists>evs. trace w' = trace w1 @ StripeCalled (ChargesCreate (charge_request E b cid ev p s)) # evs
     \<and> charges evs = []
     \<and> (case stripe E (ChargesCreate (charge_request E b cid ev p s)) of
          Inl e \<Rightarrow> resp = Status 400 \<and> evs = [] \<and> db w' = db w1
                     \<and> console w' = console w1 @ [ErrorLogged e]
        | Inr charge_id \<Rightarrow> resp = Status 200
            \<and> map step_of evs =
                one_by_one (map fst (record_tasks E user ev s (new_contribution R charge_id b ev p s)))
            \<and> console w' = console w1 @ map ErrorLogged (failures evs))"
proof (cases "stripe E (ChargesCreate (charge_request E b cid ev p s))")
  case (Inl e)
  with assms show ?thesis
    by (auto simp: charge_and_record_def Let_def stripe_called_def console_error_def)
next
  case (Inr charge_id)
  let ?w = "stripe_called (ChargesCreate (charge_request E b cid ev p s)) w1"
  let ?ts = "record_tasks E user ev s (new_contribution R charge_id b ev p s)"
  obtain e rs w2 where s: "async_series E ?ts ?w = ((e, rs), w2)" by (metis surj_pair)
  have "\<forall>t\<in>set ?ts. snd t = LogOnly" by (simp add: record_tasks_def)
  from series_LogOnly [OF this s] obtain evs where "trace w2 = trace ?w @ evs"
    "map step_of evs = one_by_one (map fst ?ts)"
    "console w2 = console ?w @ map ErrorLogged (failures evs)" by blast
  moreover from assms Inr s have "resp = Status 200" "w' = w2"
    by (simp_all add: charge_and_record_def Let_def)
  ultimately have "trace w' = trace w1 @ StripeCalled (ChargesCreate (charge_request E b cid ev p s)) # evs
     \<and> charges evs = [] \<and> resp = Status 200 \<and> map step_of evs = one_by_one (map fst ?ts)
     \<and> console w' = console w1 @ map ErrorLogged (failures evs)"
    using one_by_one_charges [of evs "map fst ?ts"] by (simp add: stripe_called_def)
  with Inr show ?thesis by auto
qed

lemma create_contribution_paths:
  assumes "create_contribution E R user b w = (resp, w')"
  shows "(resp \<noteq> Status 200 \<and> db w' = db w \<and> charges (new_events w w') = []
            \<and> filter is_write (issued (new_events w w')) = [])
       \<or> (\<exists>cid ev p w1. truthy (b ''eventIden'') \<and> truthy (b ''pacIden'') \<and> truthy (b ''amount'')
            \<and> async_parallel E (resolve_tasks user b) w = ((None, [cid, REvent ev, RPac p]), w1)
            \<and> truthy_reply cid
            \<and> (p_iden p \<in> set (supportPacs ev) \<or> p_iden p \<in> set (opposePacs ev))
            \<and> charge_and_record E R user b cid ev p (p_iden p \<in> set (supportPacs ev)) w1 = (resp, w'))"
proof (cases "\<not> truthy (b ''eventIden'') \<or> \<not> truthy (b ''pacIden'') \<or> \<not> truthy (b ''amount'')")
  case True
  with assms show ?thesis by (auto simp: create_contribution_def new_events_def)
next
  case False
  obtain e rs w1 where r: "async_parallel E (resolve_tasks user b) w = ((e, rs), w1)"
    by (metis surj_pair)
  from resolve_shape [OF r] obtain evs where d: "db w1 = db w" and l: "length rs = 3"
    and t: "trace w1 = trace w @ evs" and c: "charges evs = []" and i: "filter is_write (issued evs) = []"
    by auto
  from length3 [OF l] obtain cid re rp where rs: "rs = [cid, re, rp]" by blast
  have quiet: "db w1 = db w \<and> charges (new_events w w1) = []
          \<and> filter is_write (issued (new_events w w1)) = []"
    using d t c i by (simp add: new_events_def)
  have quiet': "db (console_error l w1) = db w \<and> charges (new_events w (console_error l w1)) = []
          \<and> filter is_write (issued (new_events w (console_error l w1))) = []" for l
    using d t c i by (simp add: new_events_def console_error_def)
  show ?thesis
  proof (cases "e = None \<and> truthy_reply cid \<and> (\<exists>ev. re = REvent ev) \<and> (\<exists>p. rp = RPac p)")
    case True
    then obtain ev p where "e = None" "truthy_reply cid" "re = REvent ev" "rp = RPac p" by blast
    with assms False r rs quiet show ?thesis
      by (auto simp: create_contribution_def result_at_def indexOf_mem Let_def split: if_splits)
  next
    case F2: False
    with assms False r rs quiet quiet' have "resp \<noteq> Status 200 \<and> db w' = db w \<and> charges (new_events w w') = []
            \<and> filter is_write (issued (new_events w w')) = []"
      by (cases e; cases re; cases rp)
         (auto simp: create_contribution_def result_at_def Let_def split: if_splits)
    then show ?thesis by blast
  qed
qed


lemma first_error_None:
  "first_error [(e0, a), (e1, b), (e2, c)] = None \<Longrightarrow> e0 = None \<and> e1 = None \<and> e2 = None"
  by (cases e0; cases e1; cases e2) auto

lemma resolve_results:
  assumes "async_parallel E (resolve_tasks user b) w = ((None, [r0, r1, r2]), w1)"
  shows "(case r1 of REvent ev \<Rightarrow> getEvent E (b ''eventIden'') = Inr (Some ev) | _ \<Rightarrow> True)
       \<and> (case r2 of RPac p \<Rightarrow> getPac E (b ''pacIden'') = Inr (Some p) | _ \<Rightarrow> True)"
  using assms
  by (auto simp: resolve_tasks_def async_parallel3 completed_def Let_def
           split: prod.splits option.splits sum.splits reply.splits)

lemma resolved_run:
  assumes "next_fault w = None"
    and "hashes (db w) UserIdenToStripeCustomerId (u_iden user) = Some cid"
    and "getEvent E (b ''eventIden'') = Inr (Some ev)"
    and "getPac E (b ''pacIden'') = Inr (Some p)"
  shows "fst (async_parallel E (resolve_tasks user b) w) = (None, [RStr cid, REvent ev, RPac p])"
  using assms
  by (simp add: resolve_tasks_def async_parallel3 completed_def Let_def next_fault_def
           split: prod.splits option.splits sum.splits)

lemmas run_defs =
  create_contribution_def charge_and_record_def charge_request_def new_contribution_def
  record_tasks_def resolve_tasks_def support_key_def async_parallel_def run_task_def
  start_io_def completed_def next_fault_def console_error_def stripe_called_def
  result_at_def js_times_def Let_def new_events_def

lemmas scenario_defs =
  scenario_env_def scenario_event_def scenario_world_def scenario_user_def scenario_rnd_def
  scenario_body_def empty_db_def accepting_def declining_def scenario_run_def
  scenario_charge_def scenario_lookups_def scenario_writes_def name_patch_def scenario_info_def later_rnd_def scenario_login_def
  scenario_numbers scenario_texts redis_integer_arg_def

section \<open>Contribution recording\<close>

lemma one_by_one_issued: "map step_of evs = one_by_one (map Redis cs) \<Longrightarrow> issued evs = cs"
proof (induction cs arbitrary: evs)
  case Nil
  then show ?case by simp
next
  case (Cons c cs)
  then obtain a b evs' where "evs = a # b # evs'" "step_of a = Start (Redis c)"
    "step_of b = End (Redis c)" "map step_of evs' = one_by_one (map Redis cs)"
    by (cases evs; cases "tl evs") auto
  with Cons.IH show ?case by (cases a; cases b) auto
qed

lemma record_tasks_cmds:
  "map fst (record_tasks E user ev s c) = map Redis (record_cmds E user ev s c)"
  by (simp add: record_tasks_def record_cmds_def)

text \<open>The whole of a run that reached the charge.\<close>

lemma charged_run:
  assumes run: "create_contribution E R user b w = (resp, w')"
    and ch: "charges (new_events w w') = [req]"
  shows "\<exists>cid ev p evs.
       getEvent E (b ''eventIden'') = Inr (Some ev) \<and> getPac E (b ''pacIden'') = Inr (Some p)
     \<and> req = charge_request E b cid ev p (p_iden p \<in> set (supportPacs ev))
     \<and> new_events w w' =
         [Issued (Redis (HGet UserIdenToStripeCustomerId (u_iden user))),
          Issued (GetEvent (b ''eventIden'')), Issued (GetPac (b ''pacIden'')),
          Completed (Redis (HGet UserIdenToStripeCustomerId (u_iden user))) None,
          Completed (GetEvent (b ''eventIden'')) None, Completed (GetPac (b ''pacIden'')) None,
          StripeCalled (ChargesCreate req)] @ evs
     \<and> (case stripe E (ChargesCreate req) of
          Inl e \<Rightarrow> resp = Status 400 \<and> evs = [] \<and> console w' = console w @ [ErrorLogged e]
        | Inr charge_id \<Rightarrow> resp = Status 200
            \<and> map step_of evs =
                one_by_one (map fst (record_tasks E user ev (ch_support req)
                   (new_contribution R charge_id b ev p (ch_support req))))
            \<and> console w' = console w @ map ErrorLogged (failures evs))"
proof -
  from create_contribution_paths [OF run] ch
  obtain cid ev p w1 where r: "async_parallel E (resolve_tasks user b) w = ((None, [cid, REvent ev, RPac p]), w1)"
    and c: "charge_and_record E R user b cid ev p (p_iden p \<in> set (supportPacs ev)) w1 = (resp, w')"
    by auto
  let ?s = "p_iden p \<in> set (supportPacs ev)"
  let ?req = "charge_request E b cid ev p ?s"
  from resolve_results [OF r] have g: "getEvent E (b ''eventIden'') = Inr (Some ev)"
    "getPac E (b ''pacIden'') = Inr (Some p)" by simp_all
  from resolve_shape [OF r] obtain e0 e1 e2 where k: "console w1 = console w"
    and t: "trace w1 = trace w @
           [Issued (Redis (HGet UserIdenToStripeCustomerId (u_iden user))),
            Issued (GetEvent (b ''eventIden'')), Issued (GetPac (b ''pacIden'')),
            Completed (Redis (HGet UserIdenToStripeCustomerId (u_iden user))) e0,
            Completed (GetEvent (b ''eventIden'')) e1, Completed (GetPac (b ''pacIden'')) e2]"
    and fe: "None = first_error [(e0, RNull), (e1, RNull), (e2, RNull)]"
    by blast
  from first_error_None [OF fe [symmetric]] have n: "e0 = None" "e1 = None" "e2 = None" by simp_all
  from charge_and_record_shape [OF c] obtain evs where
    t': "trace w' = trace w1 @ StripeCalled (ChargesCreate ?req) # evs" and ce: "charges evs = []"
    and s: "(case stripe E (ChargesCreate ?req) of
          Inl e \<Rightarrow> resp = Status 400 \<and> evs = [] \<and> db w' = db w1
                     \<and> console w' = console w1 @ [ErrorLogged e]
        | Inr charge_id \<Rightarrow> resp = Status 200
            \<and> map step_of evs =
                one_by_one (map fst (record_tasks E user ev ?s (new_contribution R charge_id b ev p ?s)))
            \<and> console w' = console w1 @ map ErrorLogged (failures evs))"
    by blast
  from t t' ce ch have q: "req = ?req" by (simp add: new_events_def)
  have cs: "ch_support ?req = ?s" by (simp add: charge_request_def)
  from t t' n q have ne: "new_events w w' =
         [Issued (Redis (HGet UserIdenToStripeCustomerId (u_iden user))),
          Issued (GetEvent (b ''eventIden'')), Issued (GetPac (b ''pacIden'')),
          Completed (Redis (HGet UserIdenToStripeCustomerId (u_iden user))) None,
          Completed (GetEvent (b ''eventIden'')) None, Completed (GetPac (b ''pacIden'')) None,
          StripeCalled (ChargesCreate req)] @ evs"
    by (simp add: new_events_def)
  from s k q cs have "(case stripe E (ChargesCreate req) of
          Inl e \<Rightarrow> resp = Status 400 \<and> evs = [] \<and> console w' = console w @ [ErrorLogged e]
        | Inr charge_id \<Rightarrow> resp = Status 200
            \<and> map step_of evs =
                one_by_one (map fst (record_tasks E user ev (ch_support req)
                   (new_contribution R charge_id b ev p (ch_support req))))
            \<and> console w' = console w @ map ErrorLogged (failures evs))"
    by (auto split: sum.splits)
  with g q ne show ?thesis by blast
qed


lemma scenario_declined_run:
  "scenario_run [''P1''] [] declining (JNumber (Finite 25)) [] =
     (Status 400,
      (scenario_world (Some ''cus_1'') [])
        \<lparr>trace := scenario_lookups @ [StripeCalled (ChargesCreate (scenario_charge (Finite 2500) True))],
          console := [ErrorLogged (Err ''card_declined'')]\<rparr>)"
  by (simp add: run_defs scenario_defs)

text \<open>
  C4: whenever the handler reached the charge and the payment gateway answered it with an
  error, the response is the client-error status 400 with the gateway's error logged, and
  nothing was recorded: no write was issued to the store, and the store is as it was.
\<close>

theorem gateway_failure_leaves_store_unchanged:
  assumes "create_contribution E R user b w = (resp, w')"
    and "charges (new_events w w') = [req]"
    and "stripe E (ChargesCreate req) = Inl e"
  shows "resp = Status 400 \<and> db w' = db w \<and> filter is_write (issued (new_events w w')) = []
       \<and> console w' = console w @ [ErrorLogged e]"
proof -
  from create_contribution_paths [OF assms(1)] assms(2)
  obtain cid ev p w1 where r: "async_parallel E (resolve_tasks user b) w = ((None, [cid, REvent ev, RPac p]), w1)"
    and c: "charge_and_record E R user b cid ev p (p_iden p \<in> set (supportPacs ev)) w1 = (resp, w')"
    by auto
  let ?req = "charge_request E b cid ev p (p_iden p \<in> set (supportPacs ev))"
  from resolve_shape [OF r] obtain e0 e1 e2 where d: "db w1 = db w" and k: "console w1 = console w"
    and t: "trace w1 = trace w @
           [Issued (Redis (HGet UserIdenToStripeCustomerId (u_iden user))),
            Issued (GetEvent (b ''eventIden'')), Issued (GetPac (b ''pacIden'')),
            Completed (Redis (HGet UserIdenToStripeCustomerId (u_iden user))) e0,
            Completed (GetEvent (b ''eventIden'')) e1, Completed (GetPac (b ''pacIden'')) e2]"
    by blast
  from charge_and_record_shape [OF c] obtain evs where
    t': "trace w' = trace w1 @ StripeCalled (ChargesCreate ?req) # evs" and ce: "charges evs = []"
    and s: "(case stripe E (ChargesCreate ?req) of
          Inl e \<Rightarrow> resp = Status 400 \<and> evs = [] \<and> db w' = db w1
                     \<and> console w' = console w1 @ [ErrorLogged e]
        | Inr charge_id \<Rightarrow> resp = Status 200
            \<and> map step_of evs =
                one_by_one (map fst (record_tasks E user ev (p_iden p \<in> set (supportPacs ev)) (new_contribution R charge_id b ev p (p_iden p \<in> set (supportPacs ev)))))
            \<and> console w' = console w1 @ map ErrorLogged (failures evs))"
    by blast
  from t t' ce assms(2) have "req = ?req" by (simp add: new_events_def)
  with s assms(3) have "resp = Status 400" "evs = []" "db w' = db w1"
    "console w' = console w1 @ [ErrorLogged e]" by simp_all
  with d k t t' show ?thesis by (simp add: new_events_def)
qed

theorem gateway_failure_witness:
  "fst (scenario_run [''P1''] [] declining (JNumber (Finite 25)) []) = Status 400
   \<and> charges (new_events (scenario_world (Some ''cus_1'') [])
         (snd (scenario_run [''P1''] [] declining (JNumber (Finite 25)) [])))
       = [scenario_charge (Finite 2500) True]
   \<and> db (snd (scenario_run [''P1''] [] declining (JNumber (Finite 25)) []))
       = db (scenario_world (Some ''cus_1'') [])
   \<and> filter is_write (issued (new_events (scenario_world (Some ''cus_1'') [])
         (snd (scenario_run [''P1''] [] declining (JNumber (Finite 25)) [])))) = []
   \<and> console (snd (scenario_run [''P1''] [] declining (JNumber (Finite 25)) []))
       = [ErrorLogged (Err ''card_declined'')]"
proof -
  let ?E = "scenario_env (scenario_event [''P1''] []) declining"
  let ?w = "scenario_world (Some ''cus_1'') []"
  let ?w' = "?w\<lparr>trace := scenario_lookups @ [StripeCalled (ChargesCreate (scenario_charge (Finite 2500) True))],
          console := [ErrorLogged (Err ''card_declined'')]\<rparr>"
  have run: "create_contribution ?E scenario_rnd scenario_user (scenario_body (JNumber (Finite 25))) ?w
      = (Status 400, ?w')"
    using scenario_declined_run by (simp add: scenario_run_def)
  have ch: "charges (new_events ?w ?w') = [scenario_charge (Finite 2500) True]"
    by (simp add: new_events_def scenario_world_def scenario_lookups_def)
  have g: "stripe ?E (ChargesCreate (scenario_charge (Finite 2500) True)) = Inl (Err ''card_declined'')"
    by (simp add: scenario_env_def declining_def)
  from gateway_failure_leaves_store_unchanged [OF run ch g] ch
  show ?thesis
    by (simp add: scenario_declined_run scenario_world_def)
qed

text \<open>
  C2: whenever the handler reached the charge and the gateway accepted it, the response is
  200, whatever the store answers to the six writes that follow; each write that failed is
  written to the error log, and nothing else is.
\<close>

theorem success_reported_whatever_bookkeeping_does:
  assumes "create_contribution E R user b w = (resp, w')"
    and "charges (new_events w w') = [req]"
    and "stripe E (ChargesCreate req) = Inr charge_id"
  shows "resp = Status 200 \<and> console w' = console w @ map ErrorLogged (failures (new_events w w'))"
proof -
  from charged_run [OF assms(1,2)] assms(3) show ?thesis
    by (auto simp: failures_append)
qed

lemma scenario_failing_writes_events:
  "new_events (scenario_world (Some ''cus_1'') [])
     (snd (scenario_run [''P1''] [] accepting (JNumber (Finite 25))
        [None, Some (Err ''io''), Some (Err ''io''), Some (Err ''io''), Some (Err ''io''),
         Some (Err ''io''), Some (Err ''io'')]))
   = scenario_lookups @ StripeCalled (ChargesCreate (scenario_charge (Finite 2500) True))
       # concat (map (\<lambda>c. [Issued (Redis c), Completed (Redis c) (Some (Err ''io''))])
                  (scenario_writes (JNumber (Finite 25)) True))"
  by (simp add: run_defs scenario_defs)

theorem success_reported_witness:
  "fst (scenario_run [''P1''] [] accepting (JNumber (Finite 25))
        [None, Some (Err ''io''), Some (Err ''io''), Some (Err ''io''), Some (Err ''io''),
         Some (Err ''io''), Some (Err ''io'')]) = Status 200
   \<and> console (snd (scenario_run [''P1''] [] accepting (JNumber (Finite 25))
        [None, Some (Err ''io''), Some (Err ''io''), Some (Err ''io''), Some (Err ''io''),
         Some (Err ''io''), Some (Err ''io'')]))
       = [ErrorLogged (Err ''io''), ErrorLogged (Err ''io''), ErrorLogged (Err ''io''),
          ErrorLogged (Err ''io''), ErrorLogged (Err ''io''), ErrorLogged (Err ''io'')]"
proof -
  let ?fs = "[None, Some (Err ''io''), Some (Err ''io''), Some (Err ''io''), Some (Err ''io''),
         Some (Err ''io''), Some (Err ''io'')]"
  let ?E = "scenario_env (scenario_event [''P1''] []) accepting"
  let ?w = "scenario_world (Some ''cus_1'') ?fs"
  let ?run = "scenario_run [''P1''] [] accepting (JNumber (Finite 25)) ?fs"
  have run: "create_contribution ?E scenario_rnd scenario_user (scenario_body (JNumber (Finite 25))) ?w
      = (fst ?run, snd ?run)"
    by (simp add: scenario_run_def)
  have t: "trace ?w = trace (scenario_world (Some ''cus_1'') [])"
    by (simp add: scenario_world_def)
  have ne: "new_events ?w (snd ?run) = new_events (scenario_world (Some ''cus_1'') []) (snd ?run)"
    by (simp add: new_events_def t)
  have ch: "charges (new_events ?w (snd ?run)) = [scenario_charge (Finite 2500) True]"
    unfolding ne scenario_failing_writes_events
    by (simp add: scenario_lookups_def scenario_writes_def)
  have g: "stripe ?E (ChargesCreate (scenario_charge (Finite 2500) True)) = Inr ''ch_1''"
    by (simp add: scenario_env_def accepting_def)
  have c: "console ?w = []" by (simp add: scenario_world_def)
  from success_reported_whatever_bookkeeping_does [OF run ch g]
  show ?thesis
    unfolding ne scenario_failing_writes_events c
    by (simp add: scenario_lookups_def scenario_writes_def)
qed

lemma scenario_accepted_events:
  "new_events (scenario_world (Some ''cus_1'') [])
     (snd (scenario_run [''P1''] [] accepting (JNumber (Finite 25)) []))
   = scenario_lookups @ StripeCalled (ChargesCreate (scenario_charge (Finite 2500) True))
       # concat (map (\<lambda>c. [Issued (Redis c), Completed (Redis c) None])
                  (scenario_writes (JNumber (Finite 25)) True))"
  by (simp add: run_defs scenario_defs in_int64_def)

lemma scenario_lookup_answers:
  "getEvent (scenario_env ev g) (scenario_body a ''eventIden'') = Inr (Some ev)"
  "getPac (scenario_env ev g) (scenario_body a ''pacIden'') = Inr (Some \<lparr>p_iden = ''P1''\<rparr>)"
  by (simp_all add: scenario_env_def scenario_body_def)

lemma scenario_large_amount_events:
  "new_events (scenario_world (Some ''cus_1'') [])
     (snd (scenario_run [''P1''] [] declining (JNumber (Finite 123456789012345680)) []))
   = scenario_lookups
       @ [StripeCalled (ChargesCreate (scenario_charge (Finite 12345678901234567168) True))]"
  by (simp add: run_defs scenario_defs)

text \<open>
  C8, as stated, fails: the charge is the product of two doubles. For the amount
  123456789012345680 the gateway is asked for 12345678901234567168, which is not the
  amount multiplied by 100.
\<close>

theorem charge_of_large_amount_is_rounded:
  "map ch_amount (charges (new_events (scenario_world (Some ''cus_1'') [])
      (snd (scenario_run [''P1''] [] declining (JNumber (Finite 123456789012345680)) []))))
     = [Finite 12345678901234567168]
   \<and> ((12345678901234567168 :: rat) = 123456789012345680 * 100) = False"
  unfolding scenario_large_amount_events
  by (simp add: scenario_lookups_def scenario_charge_def)

text \<open>
  C8, amended: in every run that reaches the charge, the gateway is asked for the double
  product of the request's amount and 100, which is the amount multiplied by 100 exactly
  whenever the amount is an integer other than 0 whose hundredfold is below \<open>2 ^ 53\<close> in
  magnitude. When the charge succeeds, the record that is stored holds the request's
  amount itself, and the four counters are incremented with that amount: the factor 100
  occurs in the charge only.
\<close>

theorem charge_in_minor_units_record_in_major_units:
  assumes "create_contribution E R user b w = (resp, w')"
    and "charges (new_events w w') = [req]"
    and "getEvent E (b ''eventIden'') = Inr (Some ev)"
    and "getPac E (b ''pacIden'') = Inr (Some p)"
  shows "ch_amount req = js_times E (b ''amount'') (JNumber (Finite 100))
     \<and> (\<forall>n. b ''amount'' = JNumber (Finite (of_int n)) \<and> n \<noteq> 0 \<and> \<bar>n * 100\<bar> < 2 ^ 53 \<longrightarrow>
          ch_amount req = Finite (of_int (n * 100)))
     \<and> (\<forall>charge_id. stripe E (ChargesCreate req) = Inr charge_id \<longrightarrow>
          filter is_write (issued (new_events w w')) =
            [HSet Contributions (generateIden R)
               (stringify_contribution E
                  \<lparr>c_iden = generateIden R, c_created = now R, c_modified = now R,
                   c_chargeId = charge_id, c_amount = b ''amount'', c_event = e_iden ev,
                   c_pac = p_iden p, c_support = ch_support req\<rparr>),
             LPush (UserReverseChronologicalContributions (u_iden user)) (generateIden R),
             HIncrBy (EventContributionTotals (e_iden ev)) (support_key (ch_support req)) (b ''amount''),
             HIncrBy (PoliticianContributionTotals (e_politician ev)) (support_key (ch_support req)) (b ''amount''),
             IncrBy ContributionsSum (b ''amount''),
             IncrBy (UserContributionsSum (u_iden user)) (b ''amount'')])"
proof -
  from charged_run [OF assms(1,2)] assms(3,4) obtain cid evs where
    q: "req = charge_request E b cid ev p (p_iden p \<in> set (supportPacs ev))"
    and ne: "new_events w w' =
         [Issued (Redis (HGet UserIdenToStripeCustomerId (u_iden user))),
          Issued (GetEvent (b ''eventIden'')), Issued (GetPac (b ''pacIden'')),
          Completed (Redis (HGet UserIdenToStripeCustomerId (u_iden user))) None,
          Completed (GetEvent (b ''eventIden'')) None, Completed (GetPac (b ''pacIden'')) None,
          StripeCalled (ChargesCreate req)] @ evs"
    and s: "(case stripe E (ChargesCreate req) of
          Inl e \<Rightarrow> resp = Status 400 \<and> evs = [] \<and> console w' = console w @ [ErrorLogged e]
        | Inr charge_id \<Rightarrow> resp = Status 200
            \<and> map step_of evs =
                one_by_one (map fst (record_tasks E user ev (ch_support req)
                   (new_contribution R charge_id b ev p (ch_support req))))
            \<and> console w' = console w @ map ErrorLogged (failures evs))"
    by auto
  have a: "ch_amount req = js_times E (b ''amount'') (JNumber (Finite 100))"
    using q by (simp add: charge_request_def)
  have x: "ch_amount req = Finite (of_int (n * 100))"
    if "b ''amount'' = JNumber (Finite (of_int n))" and "n \<noteq> 0" and "\<bar>n * 100\<bar> < 2 ^ 53" for n
    using a that(1) times_100_int [OF that(2,3)] by (simp add: js_times_def)
  have "filter is_write (issued (new_events w w')) =
            record_cmds E user ev (ch_support req) (new_contribution R charge_id b ev p (ch_support req))"
    if "stripe E (ChargesCreate req) = Inr charge_id" for charge_id
  proof -
    from s that have "map step_of evs = one_by_one (map Redis
       (record_cmds E user ev (ch_support req) (new_contribution R charge_id b ev p (ch_support req))))"
      by (simp add: record_tasks_cmds)
    from one_by_one_issued [OF this] ne show ?thesis
      by (simp add: record_cmds_def)
  qed
  then have r: "\<forall>charge_id. stripe E (ChargesCreate req) = Inr charge_id \<longrightarrow>
          filter is_write (issued (new_events w w')) =
            [HSet Contributions (generateIden R)
               (stringify_contribution E
                  \<lparr>c_iden = generateIden R, c_created = now R, c_modified = now R,
                   c_chargeId = charge_id, c_amount = b ''amount'', c_event = e_iden ev,
                   c_pac = p_iden p, c_support = ch_support req\<rparr>),
             LPush (UserReverseChronologicalContributions (u_iden user)) (generateIden R),
             HIncrBy (EventContributionTotals (e_iden ev)) (support_key (ch_support req)) (b ''amount''),
             HIncrBy (PoliticianContributionTotals (e_politician ev)) (support_key (ch_support req)) (b ''amount''),
             IncrBy ContributionsSum (b ''amount''),
             IncrBy (UserContributionsSum (u_iden user)) (b ''amount'')]"
    by (simp add: record_cmds_def new_contribution_def)
  from a x r show ?thesis by blast
qed

theorem charge_in_minor_units_witness:
  "charges (new_events (scenario_world (Some ''cus_1'') [])
      (snd (scenario_run [''P1''] [] accepting (JNumber (Finite 25)) [])))
     = [scenario_charge (Finite 2500) True]
   \<and> filter is_write (issued (new_events (scenario_world (Some ''cus_1'') [])
        (snd (scenario_run [''P1''] [] accepting (JNumber (Finite 25)) []))))
     = scenario_writes (JNumber (Finite 25)) True
   \<and> counters (db (snd (scenario_run [''P1''] [] accepting (JNumber (Finite 25)) []))) ContributionsSum = 25
   \<and> hash_counters (db (snd (scenario_run [''P1''] [] accepting (JNumber (Finite 25)) [])))
        (EventContributionTotals ''E1'') ''support'' = 25"
proof -
  let ?E = "scenario_env (scenario_event [''P1''] []) accepting"
  let ?w = "scenario_world (Some ''cus_1'') []"
  let ?b = "scenario_body (JNumber (Finite 25))"
  let ?run = "scenario_run [''P1''] [] accepting (JNumber (Finite 25)) []"
  have run: "create_contribution ?E scenario_rnd scenario_user ?b ?w = (fst ?run, snd ?run)"
    by (simp add: scenario_run_def)
  have ch: "charges (new_events ?w (snd ?run)) = [scenario_charge (Finite 2500) True]"
    unfolding scenario_accepted_events
    by (simp add: scenario_lookups_def scenario_writes_def)
  have g: "stripe ?E (ChargesCreate (scenario_charge (Finite 2500) True)) = Inr ''ch_1''"
    by (simp add: scenario_env_def accepting_def)
  have d: "counters (db (snd ?run)) ContributionsSum = 25"
    "hash_counters (db (snd ?run)) (EventContributionTotals ''E1'') ''support'' = 25"
    by (simp_all add: run_defs scenario_defs in_int64_def)
  have b25: "?b ''amount'' = JNumber (Finite (of_int 25))" "(25::int) \<noteq> 0"
    "\<bar>(25::int) * 100\<bar> < 2 ^ 53"
    by (simp_all add: scenario_body_def)
  note th = charge_in_minor_units_record_in_major_units
         [OF run ch scenario_lookup_answers(1) scenario_lookup_answers(2)]
  from th [THEN conjunct2, THEN conjunct1, rule_format, of 25] b25
  have "ch_amount (scenario_charge (Finite 2500) True) = Finite 2500" by simp
  moreover from th g
  have "filter is_write (issued (new_events ?w (snd ?run))) = scenario_writes (JNumber (Finite 25)) True"
    by (simp add: scenario_env_def scenario_event_def scenario_rnd_def scenario_user_def
          scenario_body_def scenario_writes_def scenario_charge_def support_key_def)
  ultimately show ?thesis using ch d by simp
qed

text \<open>
  The three lookups before the charge are fired together, the six writes after it are
  not.
\<close>

lemma scenario_lookups_fired_together:
  "fired_together (map fst (resolve_tasks scenario_user (scenario_body (JNumber (Finite 25)))))
     (map step_of (new_events (scenario_world (Some ''cus_1'') [])
        (snd (scenario_run [''P1''] [] accepting (JNumber (Finite 25)) [])))) = True"
  unfolding scenario_accepted_events
  by (simp add: resolve_tasks_def scenario_defs)

text \<open>
  C3, as stated, fails: in the scenario the second write is started after the first one
  has ended.
\<close>

theorem writes_not_fired_together:
  "fired_together (map Redis (scenario_writes (JNumber (Finite 25)) True))
     (map step_of (new_events (scenario_world (Some ''cus_1'') [])
        (snd (scenario_run [''P1''] [] accepting (JNumber (Finite 25)) [])))) = False"
  unfolding scenario_accepted_events
  by (simp add: scenario_defs)

text \<open>
  C3, amended: in every run with a successful charge, the six writes are issued one at a
  time and in a fixed order (record, list, event counter, politician counter, global sum,
  user sum); each is started once the one before has ended, whether it failed or not.
\<close>

theorem bookkeeping_writes_run_one_by_one:
  assumes "create_contribution E R user b w = (resp, w')"
    and "charges (new_events w w') = [req]"
    and "stripe E (ChargesCreate req) = Inr charge_id"
    and "getEvent E (b ''eventIden'') = Inr (Some ev)"
    and "getPac E (b ''pacIden'') = Inr (Some p)"
  shows "map step_of (new_events w w') =
     [Start (Redis (HGet UserIdenToStripeCustomerId (u_iden user))),
      Start (GetEvent (b ''eventIden'')), Start (GetPac (b ''pacIden'')),
      End (Redis (HGet UserIdenToStripeCustomerId (u_iden user))),
      End (GetEvent (b ''eventIden'')), End (GetPac (b ''pacIden'')),
      Call (ChargesCreate req)]
     @ one_by_one (map Redis (record_cmds E user ev (ch_support req)
                     (new_contribution R charge_id b ev p (ch_support req))))"
proof -
  from charged_run [OF assms(1,2)] assms(3,4,5) show ?thesis
    by (auto simp: record_tasks_cmds)
qed

lemma scenario_one_failing_write_events:
  "new_events (scenario_world (Some ''cus_1'') [])
     (snd (scenario_run [''P1''] [] accepting (JNumber (Finite 25)) [None, None, Some (Err ''io'')]))
   = scenario_lookups @ StripeCalled (ChargesCreate (scenario_charge (Finite 2500) True))
       # concat (map (\<lambda>(c, e). [Issued (Redis c), Completed (Redis c) e])
                  (zip (scenario_writes (JNumber (Finite 25)) True)
                       [None, Some (Err ''io''), None, None, None, None]))"
  by (simp add: run_defs scenario_defs in_int64_def)

theorem bookkeeping_writes_witness:
  "map step_of (new_events (scenario_world (Some ''cus_1'') [])
     (snd (scenario_run [''P1''] [] accepting (JNumber (Finite 25)) [None, None, Some (Err ''io'')])))
   = map step_of scenario_lookups @ Call (ChargesCreate (scenario_charge (Finite 2500) True))
       # one_by_one (map Redis (scenario_writes (JNumber (Finite 25)) True))"
proof -
  let ?fs = "[None, None, Some (Err ''io'')]"
  let ?E = "scenario_env (scenario_event [''P1''] []) accepting"
  let ?w = "scenario_world (Some ''cus_1'') ?fs"
  let ?b = "scenario_body (JNumber (Finite 25))"
  let ?run = "scenario_run [''P1''] [] accepting (JNumber (Finite 25)) ?fs"
  have run: "create_contribution ?E scenario_rnd scenario_user ?b ?w = (fst ?run, snd ?run)"
    by (simp add: scenario_run_def)
  have ne: "new_events ?w (snd ?run) = new_events (scenario_world (Some ''cus_1'') []) (snd ?run)"
    by (simp add: new_events_def scenario_world_def)
  have ch: "charges (new_events ?w (snd ?run)) = [scenario_charge (Finite 2500) True]"
    unfolding ne scenario_one_failing_write_events
    by (simp add: scenario_lookups_def scenario_writes_def)
  have g: "stripe ?E (ChargesCreate (scenario_charge (Finite 2500) True)) = Inr ''ch_1''"
    by (simp add: scenario_env_def accepting_def)
  from bookkeeping_writes_run_one_by_one
         [OF run ch g scenario_lookup_answers(1) scenario_lookup_answers(2)]
  show ?thesis
    unfolding ne
    by (simp add: scenario_defs record_cmds_def new_contribution_def support_key_def)
qed

lemma resolved_contribution:
  assumes "truthy (b ''eventIden'')" and "truthy (b ''pacIden'')" and "truthy (b ''amount'')"
    and "next_fault w = None"
    and "hashes (db w) UserIdenToStripeCustomerId (u_iden user) = Some cid" and "cid \<noteq> []"
    and "getEvent E (b ''eventIden'') = Inr (Some ev)"
    and "getPac E (b ''pacIden'') = Inr (Some p)"
  shows "create_contribution E R user b w =
     (if p_iden p \<in> set (supportPacs ev)
      then charge_and_record E R user b (RStr cid) ev p True
             (snd (async_parallel E (resolve_tasks user b) w))
      else if p_iden p \<in> set (opposePacs ev)
      then charge_and_record E R user b (RStr cid) ev p False
             (snd (async_parallel E (resolve_tasks user b) w))
      else (Status 400, snd (async_parallel E (resolve_tasks user b) w)))"
proof -
  obtain x w1 where r: "async_parallel E (resolve_tasks user b) w = (x, w1)" by (metis surj_pair)
  with resolved_run [OF assms(4,5,7,8)] have x: "x = (None, [RStr cid, REvent ev, RPac p])"
    by simp
  with r assms(1,2,3,6) show ?thesis
    by (simp add: create_contribution_def result_at_def indexOf_mem Let_def)
qed

lemma resolved_quiet:
  assumes "async_parallel E (resolve_tasks user b) w = (x, w1)"
  shows "db w1 = db w \<and> charges (new_events w w1) = []
       \<and> filter is_write (issued (new_events w w1)) = []"
proof -
  obtain e rs where "x = (e, rs)" by (cases x)
  with assms have "async_parallel E (resolve_tasks user b) w = ((e, rs), w1)" by simp
  from resolve_shape [OF this] show ?thesis by (auto simp: new_events_def)
qed

lemma charge_and_record_charges:
  assumes "async_parallel E (resolve_tasks user b) w = (x, w1)"
    and "charge_and_record E R user b cid ev p s w1 = (resp, w')"
  shows "charges (new_events w w') = [charge_request E b cid ev p s]"
proof -
  obtain e rs where "x = (e, rs)" by (cases x)
  with assms have "async_parallel E (resolve_tasks user b) w = ((e, rs), w1)" by simp
  from resolve_shape [OF this] obtain evs where t: "trace w1 = trace w @ evs" "charges evs = []"
    by auto
  from charge_and_record_shape [OF assms(2)] obtain evs' where
    "trace w' = trace w1 @ StripeCalled (ChargesCreate (charge_request E b cid ev p s)) # evs'"
    "charges evs' = []" by blast
  with t show ?thesis by (simp add: new_events_def charges_append)
qed

text \<open>
  C1, as stated, fails for a PAC that is in both lists: the request is charged, as a
  contribution in support, and answered with 200.
\<close>

theorem pac_in_both_lists_is_charged:
  "fst (scenario_run [''P1''] [''P1''] accepting (JNumber (Finite 25)) []) = Status 200
   \<and> charges (new_events (scenario_world (Some ''cus_1'') [])
        (snd (scenario_run [''P1''] [''P1''] accepting (JNumber (Finite 25)) [])))
     = [scenario_charge (Finite 2500) True]"
  by (simp add: run_defs scenario_defs in_int64_def)

text \<open>
  C1, amended: once the billing customer, the event and the PAC are resolved, the support
  list is looked at first. A PAC in the support list is charged with support = true,
  whether or not it is in the oppose list too; a PAC in the oppose list only is charged
  with support = false; a PAC in neither list gets 400, with no charge attempted and
  nothing written.
\<close>

theorem support_flag_from_first_matching_list:
  assumes "truthy (b ''eventIden'')" and "truthy (b ''pacIden'')" and "truthy (b ''amount'')"
    and "next_fault w = None"
    and "hashes (db w) UserIdenToStripeCustomerId (u_iden user) = Some cid" and "cid \<noteq> []"
    and "getEvent E (b ''eventIden'') = Inr (Some ev)"
    and "getPac E (b ''pacIden'') = Inr (Some p)"
    and "create_contribution E R user b w = (resp, w')"
  shows "(p_iden p \<in> set (supportPacs ev) \<longrightarrow>
            charges (new_events w w') = [charge_request E b (RStr cid) ev p True])
       \<and> (p_iden p \<notin> set (supportPacs ev) \<and> p_iden p \<in> set (opposePacs ev) \<longrightarrow>
            charges (new_events w w') = [charge_request E b (RStr cid) ev p False])
       \<and> (p_iden p \<notin> set (supportPacs ev) \<and> p_iden p \<notin> set (opposePacs ev) \<longrightarrow>
            resp = Status 400 \<and> charges (new_events w w') = [] \<and> db w' = db w
            \<and> filter is_write (issued (new_events w w')) = [])"
proof -
  obtain x w1 where r: "async_parallel E (resolve_tasks user b) w = (x, w1)" by (metis surj_pair)
  note c = resolved_contribution [OF assms(1-8), of R]
  have 1: "charges (new_events w w') = [charge_request E b (RStr cid) ev p True]"
    if "p_iden p \<in> set (supportPacs ev)"
  proof -
    from c assms(9) r that
    have "charge_and_record E R user b (RStr cid) ev p True w1 = (resp, w')" by simp
    from charge_and_record_charges [OF r this] show ?thesis .
  qed
  have 2: "charges (new_events w w') = [charge_request E b (RStr cid) ev p False]"
    if "p_iden p \<notin> set (supportPacs ev)" and "p_iden p \<in> set (opposePacs ev)"
  proof -
    from c assms(9) r that
    have "charge_and_record E R user b (RStr cid) ev p False w1 = (resp, w')" by simp
    from charge_and_record_charges [OF r this] show ?thesis .
  qed
  have 3: "resp = Status 400 \<and> charges (new_events w w') = [] \<and> db w' = db w
            \<and> filter is_write (issued (new_events w w')) = []"
    if "p_iden p \<notin> set (supportPacs ev)" and "p_iden p \<notin> set (opposePacs ev)"
  proof -
    from c assms(9) r that have "resp = Status 400" "w' = w1" by simp_all
    with resolved_quiet [OF r] show ?thesis by simp
  qed
  from 1 2 3 show ?thesis by blast
qed

lemma scenario_preconditions:
  "a \<noteq> JUndefined \<Longrightarrow> truthy a \<Longrightarrow> truthy (scenario_body a ''amount'')"
  "truthy (scenario_body a ''eventIden'')"
  "truthy (scenario_body a ''pacIden'')"
  "next_fault (scenario_world c []) = None"
  "hashes (db (scenario_world (Some ''cus_1'') fs)) UserIdenToStripeCustomerId (u_iden scenario_user)
     = Some ''cus_1''"
  by (simp_all add: scenario_defs next_fault_def)

theorem support_flag_witness:
  "charges (new_events (scenario_world (Some ''cus_1'') [])
      (snd (scenario_run [''P1''] [''P1''] accepting (JNumber (Finite 25)) [])))
     = [scenario_charge (Finite 2500) True]
   \<and> charges (new_events (scenario_world (Some ''cus_1'') [])
      (snd (scenario_run [] [''P1''] accepting (JNumber (Finite 25)) [])))
     = [scenario_charge (Finite 2500) False]
   \<and> fst (scenario_run [] [] accepting (JNumber (Finite 25)) []) = Status 400
   \<and> charges (new_events (scenario_world (Some ''cus_1'') [])
      (snd (scenario_run [] [] accepting (JNumber (Finite 25)) []))) = []
   \<and> db (snd (scenario_run [] [] accepting (JNumber (Finite 25)) []))
     = db (scenario_world (Some ''cus_1'') [])"
proof -
  let ?w = "scenario_world (Some ''cus_1'') []"
  let ?b = "scenario_body (JNumber (Finite 25))"
  have t: "truthy (?b ''eventIden'')" "truthy (?b ''pacIden'')" "truthy (?b ''amount'')"
    by (simp_all add: scenario_preconditions)
  have n: "''cus_1'' \<noteq> []" by simp
  have run: "create_contribution (scenario_env (scenario_event sl ol) accepting) scenario_rnd
       scenario_user ?b ?w
     = (fst (scenario_run sl ol accepting (JNumber (Finite 25)) []),
        snd (scenario_run sl ol accepting (JNumber (Finite 25)) []))" for sl ol
    by (simp add: scenario_run_def)
  note th = support_flag_from_first_matching_list
              [OF t scenario_preconditions(4) scenario_preconditions(5) n
                  scenario_lookup_answers(1) scenario_lookup_answers(2) run]
  from th [of "[''P1'']" "[''P1'']"] th [of "[]" "[''P1'']"] th [of "[]" "[]"]
  show ?thesis
    by (simp add: scenario_event_def charge_request_def scenario_charge_def js_times_def
          scenario_body_def scenario_numbers)
qed

text \<open>
  C10: the amount is only tested for truthiness. Any truthy amount, with the references
  resolved and the PAC in one of the event's lists, reaches the gateway, which is asked
  for the product of that amount and 100: a negative number gives a negative charge, a
  string that is no number gives NaN.
\<close>

theorem amount_checked_for_truthiness_only:
  assumes "truthy (b ''amount'')"
    and "truthy (b ''eventIden'')" and "truthy (b ''pacIden'')"
    and "next_fault w = None"
    and "hashes (db w) UserIdenToStripeCustomerId (u_iden user) = Some cid" and "cid \<noteq> []"
    and "getEvent E (b ''eventIden'') = Inr (Some ev)"
    and "getPac E (b ''pacIden'') = Inr (Some p)"
    and "p_iden p \<in> set (supportPacs ev) \<union> set (opposePacs ev)"
  shows "map ch_amount (charges (new_events w (snd (create_contribution E R user b w))))
     = [js_times E (b ''amount'') (JNumber (Finite 100))]"
proof -
  obtain x w1 where r: "async_parallel E (resolve_tasks user b) w = (x, w1)" by (metis surj_pair)
  obtain resp w' where run: "create_contribution E R user b w = (resp, w')" by (metis surj_pair)
  let ?s = "p_iden p \<in> set (supportPacs ev)"
  from resolved_contribution [OF assms(2,3,1,4-8), of R] assms(9) r run
  have "charge_and_record E R user b (RStr cid) ev p ?s w1 = (resp, w')"
    by (auto split: if_splits)
  from charge_and_record_charges [OF r this] run show ?thesis
    by (simp add: charge_request_def)
qed

theorem amount_truthiness_witness:
  "map ch_amount (charges (new_events (scenario_world (Some ''cus_1'') [])
      (snd (scenario_run [''P1''] [] accepting (JNumber (Finite (- 5))) [])))) = [Finite (- 500)]
   \<and> map ch_amount (charges (new_events (scenario_world (Some ''cus_1'') [])
      (snd (scenario_run [''P1''] [] accepting (JString ''abc'') [])))) = [NaN]"
proof -
  let ?w = "scenario_world (Some ''cus_1'') []"
  let ?E = "scenario_env (scenario_event [''P1''] []) accepting"
  have n: "''cus_1'' \<noteq> []" by simp
  have m: "p_iden \<lparr>p_iden = ''P1''\<rparr> \<in> set (supportPacs (scenario_event [''P1''] []))
            \<union> set (opposePacs (scenario_event [''P1''] []))"
    by (simp add: scenario_event_def)
  have a: "truthy (scenario_body (JNumber (Finite (- 5))) ''amount'')"
    "truthy (scenario_body (JString ''abc'') ''amount'')"
    by (simp_all add: scenario_body_def)
  note th = amount_checked_for_truthiness_only
      [OF _ scenario_preconditions(2) scenario_preconditions(3) scenario_preconditions(4)
          scenario_preconditions(5) n scenario_lookup_answers(1) scenario_lookup_answers(2) m,
       where R = scenario_rnd]
  from th [OF a(1)] th [OF a(2)] show ?thesis
    by (simp add: scenario_run_def js_times_def scenario_env_def scenario_body_def
          scenario_numbers)
qed

section \<open>Profile and payment method\<close>

lemma if_update:
  "(if c then r\<lparr>u_name := x\<rparr> else r) = r\<lparr>u_name := (if c then x else u_name r)\<rparr>"
  "(if c then r\<lparr>u_occupation := x\<rparr> else r) = r\<lparr>u_occupation := (if c then x else u_occupation r)\<rparr>"
  "(if c then r\<lparr>u_employer := x\<rparr> else r) = r\<lparr>u_employer := (if c then x else u_employer r)\<rparr>"
  "(if c then r\<lparr>u_streetAddress := x\<rparr> else r)
     = r\<lparr>u_streetAddress := (if c then x else u_streetAddress r)\<rparr>"
  "(if c then r\<lparr>u_cityStateZip := x\<rparr> else r)
     = r\<lparr>u_cityStateZip := (if c then x else u_cityStateZip r)\<rparr>"
  for r :: user
  by (cases c; simp)+

lemma patch_chain:
  "(let u1 = (if truthy (b ''name'') then user\<lparr>u_name := b ''name''\<rparr> else user);
        u2 = (if truthy (b ''occupation'') then u1\<lparr>u_occupation := b ''occupation''\<rparr> else u1);
        u3 = (if truthy (b ''employer'') then u2\<lparr>u_employer := b ''employer''\<rparr> else u2);
        u4 = (if truthy (b ''streetAddress'') then u3\<lparr>u_streetAddress := b ''streetAddress''\<rparr> else u3);
        u5 = (if truthy (b ''cityStateZip'') then u4\<lparr>u_cityStateZip := b ''cityStateZip''\<rparr> else u4);
        u6 = u5\<lparr>u_modified := now R\<rparr>
    in f u6) = f (patched R user b)"
  unfolding Let_def if_update patched_def
  by (simp split del: if_split cong del: if_weak_cong)

lemma update_profile_patched:
  "update_profile E R user b w =
     (case redis_call E (HSet Users (u_iden user) (stringify_user E (patched R user b))) w of
        ((Some e, reply), w1) \<Rightarrow> ((Status 500, patched R user b), console_error (ErrorLogged e) w1)
      | ((None, reply), w1) \<Rightarrow> ((Status 200, patched R user b), w1))"
proof -
  have i: "u_iden (patched R user b) = u_iden user" by (simp add: patched_def)
  show ?thesis
    unfolding update_profile_def
    by (subst patch_chain) (simp only: i)
qed

lemma update_profile_user:
  assumes "update_profile E R user b w = ((resp, user'), w')"
  shows "user' = patched R user b"
  using assms unfolding update_profile_patched
  by (auto split: prod.splits option.splits)

lemma update_profile_write:
  assumes "update_profile E R user b w = ((resp, user'), w')"
  shows "issued (new_events w w') = [HSet Users (u_iden user) (stringify_user E user')]"
  using assms unfolding update_profile_patched
  by (auto simp: redis_call_def start_io_def completed_def Let_def
        console_error_def new_events_def split: prod.splits option.splits)

text \<open>
  C9: for every profile and every patch, each of the five patchable fields is
  overwritten exactly when the patch holds a value for it that passes the handler's test
  \<^verbatim>\<open>if (req.body.field)\<close>, which for a text is being present and not empty; every
  other field is as it was, except that the last-modified time becomes the current
  time. A patch with a name and nothing else changes the name and that time only. The
  resulting record is the one written to the store.
\<close>

theorem profile_patch_overwrites_present_fields_only:
  assumes "update_profile E R user b w = ((resp, user'), w')"
  shows "user' = user
     \<lparr>u_name := (if truthy (b ''name'') then b ''name'' else u_name user),
      u_occupation := (if truthy (b ''occupation'') then b ''occupation'' else u_occupation user),
      u_employer := (if truthy (b ''employer'') then b ''employer'' else u_employer user),
      u_streetAddress :=
        (if truthy (b ''streetAddress'') then b ''streetAddress'' else u_streetAddress user),
      u_cityStateZip :=
        (if truthy (b ''cityStateZip'') then b ''cityStateZip'' else u_cityStateZip user),
      u_modified := now R\<rparr>
     \<and> issued (new_events w w') = [HSet Users (u_iden user) (stringify_user E user')]
     \<and> (truthy (b ''name'') \<and> b ''occupation'' = JUndefined \<and> b ''employer'' = JUndefined
          \<and> b ''streetAddress'' = JUndefined \<and> b ''cityStateZip'' = JUndefined \<longrightarrow>
        user' = user\<lparr>u_name := b ''name'', u_modified := now R\<rparr>)"
  using update_profile_user [OF assms] update_profile_write [OF assms]
  by (simp add: patched_def)

theorem profile_patch_witness:
  "snd (fst (update_profile (scenario_env (scenario_event [] []) accepting) scenario_rnd
          scenario_user (name_patch ''X'') (scenario_world None [])))
     = scenario_user\<lparr>u_name := JString ''X'', u_modified := 2000\<rparr>
   \<and> u_occupation (snd (fst (update_profile (scenario_env (scenario_event [] []) accepting)
          scenario_rnd scenario_user (name_patch ''X'') (scenario_world None []))))
     = JString ''Baker''"
proof -
  let ?E = "scenario_env (scenario_event [] []) accepting"
  let ?w = "scenario_world None []"
  let ?run = "update_profile ?E scenario_rnd scenario_user (name_patch ''X'') ?w"
  have run: "?run = ((fst (fst ?run), snd (fst ?run)), snd ?run)" by simp
  from profile_patch_overwrites_present_fields_only [OF run, THEN conjunct2, THEN conjunct2]
  show ?thesis
    by (simp add: name_patch_def scenario_user_def scenario_rnd_def)
qed

text \<open>
  C7 does not hold of the handler. For a user without a billing customer, the callback of
  the customer creation never looks at the error: when the gateway fails, reading the id
  of the missing customer throws, and no response is sent. When the creation succeeds
  and the mapping cannot be stored, the status is 400. The handler's other paths do
  what the claim says: a failed customer update gives 400, a failed lookup in the store
  gives 500.
\<close>

theorem set_card_create_path_misreports:
  "fst (set_card (scenario_env (scenario_event [] []) declining) scenario_user
          (scenario_body JUndefined) (scenario_world None [])) = Uncaught ''TypeError''
   \<and> fst (set_card (scenario_env (scenario_event [] []) accepting) scenario_user
          (scenario_body JUndefined) (scenario_world None [None, Some (Err ''io'')])) = Status 400
   \<and> fst (set_card (scenario_env (scenario_event [] []) declining) scenario_user
          (scenario_body JUndefined) (scenario_world (Some ''cus_1'') [])) = Status 400
   \<and> fst (set_card (scenario_env (scenario_event [] []) accepting) scenario_user
          (scenario_body JUndefined) (scenario_world None [Some (Err ''io'')])) = Status 500"
  by (simp add: set_card_def redis_call_def run_defs scenario_defs)

section \<open>Authentication\<close>

lemma next_fault_nth: "next_fault w = nth_fault (faults w) 0"
  by (cases "faults w") (simp_all add: next_fault_def)

lemma nth_fault_tl: "nth_fault (tl fs) n = nth_fault fs (Suc n)"
  by (cases fs) simp_all

lemma hset_task:
  "run_task E (Redis (HSet k f v), Forward) w =
     (case nth_fault (faults w) 0 of
        Some e \<Rightarrow>
          ((Some e, RNull),
           w\<lparr>faults := tl (faults w),
             trace := trace w @ [Issued (Redis (HSet k f v)), Completed (Redis (HSet k f v)) (Some e)]\<rparr>)
      | None \<Rightarrow>
          ((None, RInt (if hashes (db w) k f = None then 1 else 0)),
           w\<lparr>db := (db w)\<lparr>hashes := (hashes (db w))(k := (hashes (db w) k)(f \<mapsto> v))\<rparr>,
             faults := tl (faults w),
             trace := trace w @ [Issued (Redis (HSet k f v)), Completed (Redis (HSet k f v)) None]\<rparr>))"
  by (simp add: run_task_def start_io_def completed_def Let_def next_fault_nth split: option.splits)

lemma hget_call:
  "redis_call E (HGet k f) w =
     (case nth_fault (faults w) 0 of
        Some e \<Rightarrow>
          ((Some e, RNull),
           w\<lparr>faults := tl (faults w),
             trace := trace w @ [Issued (Redis (HGet k f)), Completed (Redis (HGet k f)) (Some e)]\<rparr>)
      | None \<Rightarrow>
          ((None, case hashes (db w) k f of None \<Rightarrow> RNull | Some v \<Rightarrow> RStr v),
           w\<lparr>faults := tl (faults w),
             trace := trace w @ [Issued (Redis (HGet k f)), Completed (Redis (HGet k f)) None]\<rparr>))"
  by (simp add: redis_call_def start_io_def completed_def Let_def next_fault_nth split: option.splits)

lemma new_user_tasks_cmds:
  "new_user_tasks E R info = map (\<lambda>c. (Redis c, Forward)) (new_user_cmds E R info)"
  by (simp add: new_user_tasks_def new_user_cmds_def Let_def new_user_def)

lemma authenticate_new_user:
  assumes "getFacebookUserInfo E (b ''facebookToken'') = FbCallback True (Some info)"
    and "nth_fault (faults w) 0 = None"
    and "hashes (db w) FacebookUserIdToUserIden (fb_id info) = None"
  shows "authenticate E R b w =
     (case async_series E (new_user_tasks E R info)
             (w\<lparr>faults := tl (faults w),
                trace := trace w @
                  [Issued (Redis (HGet FacebookUserIdToUserIden (fb_id info))),
                   Completed (Redis (HGet FacebookUserIdToUserIden (fb_id info))) None]\<rparr>) of
        ((Some e, results), w2) \<Rightarrow> (Status 500, console_error (ErrorLogged e) w2)
      | ((None, results), w2) \<Rightarrow> (AccessToken (randomHex R), w2))"
  using assms by (simp add: authenticate_def hget_call)

lemmas series_eval =
  new_user_tasks_cmds new_user_cmds_def hset_task nth_fault_tl console_error_def new_events_def

lemma new_user_fails_at:
  assumes "getFacebookUserInfo E (b ''facebookToken'') = FbCallback True (Some info)"
    and "nth_fault (faults w) 0 = None"
    and "hashes (db w) FacebookUserIdToUserIden (fb_id info) = None"
    and "authenticate E R b w = (resp, w')"
    and "k < 4"
    and "\<forall>i<k. nth_fault (faults w) (Suc i) = None"
    and "nth_fault (faults w) (Suc k) = Some e"
  shows "map step_of (new_events w w') =
           Start (Redis (HGet FacebookUserIdToUserIden (fb_id info)))
           # End (Redis (HGet FacebookUserIdToUserIden (fb_id info)))
           # one_by_one (map Redis (take (Suc k) (new_user_cmds E R info)))
       \<and> resp = Status 500 \<and> console w' = console w @ [ErrorLogged e]
       \<and> hashes (db w') FacebookUserIdToUserIden (fb_id info) = None"
proof -
  from \<open>k < 4\<close> consider "k = 0" | "k = Suc 0" | "k = Suc (Suc 0)" | "k = Suc (Suc (Suc 0))"
    by arith
  then show ?thesis
  proof cases
    case 1
    with assms(4,7) show ?thesis
      unfolding authenticate_new_user [where E = E and b = b and w = w and info = info, OF assms(1-3)]
      by (auto simp: series_eval assms(3))
  next
    case 2
    with assms(4,6,7) show ?thesis
      unfolding authenticate_new_user [where E = E and b = b and w = w and info = info, OF assms(1-3)]
      by (auto simp: series_eval assms(3))
  next
    case 3
    with assms(4,6,7) show ?thesis
      unfolding authenticate_new_user [where E = E and b = b and w = w and info = info, OF assms(1-3)]
      by (auto simp: series_eval assms(3) All_less_Suc)
  next
    case 4
    with assms(4,6,7) show ?thesis
      unfolding authenticate_new_user [where E = E and b = b and w = w and info = info, OF assms(1-3)]
      by (auto simp: series_eval assms(3) All_less_Suc)
  qed
qed

lemma new_user_succeeds:
  assumes "getFacebookUserInfo E (b ''facebookToken'') = FbCallback True (Some info)"
    and "nth_fault (faults w) 0 = None"
    and "hashes (db w) FacebookUserIdToUserIden (fb_id info) = None"
    and "authenticate E R b w = (resp, w')"
    and "\<forall>i<4. nth_fault (faults w) (Suc i) = None"
  shows "map step_of (new_events w w') =
           Start (Redis (HGet FacebookUserIdToUserIden (fb_id info)))
           # End (Redis (HGet FacebookUserIdToUserIden (fb_id info)))
           # one_by_one (map Redis (new_user_cmds E R info))
       \<and> resp = AccessToken (randomHex R) \<and> console w' = console w
       \<and> hashes (db w') FacebookUserIdToUserIden (fb_id info) = Some (generateIden R)"
proof -
  from assms(5) have "nth_fault (faults w) (Suc 0) = None"
    "nth_fault (faults w) (Suc (Suc 0)) = None"
    "nth_fault (faults w) (Suc (Suc (Suc 0))) = None"
    "nth_fault (faults w) (Suc (Suc (Suc (Suc 0)))) = None"
    by simp_all
  with assms(4) show ?thesis
    unfolding authenticate_new_user [where E = E and b = b and w = w and info = info, OF assms(1-3)]
    by (auto simp: series_eval)
qed

lemma scenario_login_writes:
  "filter is_write (issued (new_events (scenario_world None []) (snd (scenario_login []))))
     = [HSet Users ''c1'' ''c1'', HSet UserIdenToAccessToken ''c1'' ''ab12'',
        HSet AccessTokenToUserIden ''ab12'' ''c1'', HSet FacebookUserIdToUserIden ''fb1'' ''c1'']"
  by (simp add: authenticate_def getFacebookUserInfo_def hget_call series_eval scenario_defs
        new_user_def)

text \<open>
  C5, as stated, fails in the order of the second and the third write: the handler maps
  the iden to the token before it maps the token to the iden.
\<close>

theorem new_user_writes_not_in_claimed_order:
  "filter is_write (issued (new_events (scenario_world None []) (snd (scenario_login []))))
     = [HSet Users ''c1'' ''c1'', HSet UserIdenToAccessToken ''c1'' ''ab12'',
        HSet AccessTokenToUserIden ''ab12'' ''c1'', HSet FacebookUserIdToUserIden ''fb1'' ''c1'']
   \<and> (filter is_write (issued (new_events (scenario_world None []) (snd (scenario_login []))))
        = claimed_new_user_cmds (scenario_env (scenario_event [] []) accepting) scenario_rnd
            scenario_info) = False"
  unfolding scenario_login_writes
  by (simp add: claimed_new_user_cmds_def scenario_rnd_def scenario_info_def)

text \<open>
  C5, amended: when the verified identity has no user yet, the four writes are run one
  at a time and in this order: user record, iden to token, token to iden, external
  identity to iden. When one of them fails, the later ones are not issued, the error is
  logged and the response is 500; the external identity is mapped only when all four
  succeeded, in which case the new token is returned.
\<close>

theorem new_user_is_written_in_order:
  assumes "getFacebookUserInfo E (b ''facebookToken'') = FbCallback True (Some info)"
    and "nth_fault (faults w) 0 = None"
    and "hashes (db w) FacebookUserIdToUserIden (fb_id info) = None"
    and "authenticate E R b w = (resp, w')"
  shows "(\<forall>k<4. \<forall>e. (\<forall>i<k. nth_fault (faults w) (Suc i) = None)
              \<and> nth_fault (faults w) (Suc k) = Some e \<longrightarrow>
            map step_of (new_events w w') =
              Start (Redis (HGet FacebookUserIdToUserIden (fb_id info)))
              # End (Redis (HGet FacebookUserIdToUserIden (fb_id info)))
              # one_by_one (map Redis (take (Suc k) (new_user_cmds E R info)))
            \<and> resp = Status 500 \<and> console w' = console w @ [ErrorLogged e]
            \<and> hashes (db w') FacebookUserIdToUserIden (fb_id info) = None)
       \<and> ((\<forall>i<4. nth_fault (faults w) (Suc i) = None) \<longrightarrow>
            map step_of (new_events w w') =
              Start (Redis (HGet FacebookUserIdToUserIden (fb_id info)))
              # End (Redis (HGet FacebookUserIdToUserIden (fb_id info)))
              # one_by_one (map Redis (new_user_cmds E R info))
            \<and> resp = AccessToken (randomHex R) \<and> console w' = console w
            \<and> hashes (db w') FacebookUserIdToUserIden (fb_id info) = Some (generateIden R))"
  using new_user_fails_at [where E = E and b = b and w = w and info = info, OF assms]
    new_user_succeeds [where E = E and b = b and w = w and info = info, OF assms]
  by blast

lemma scenario_identity:
  "getFacebookUserInfo (scenario_env ev g) (scenario_body a ''facebookToken'')
     = FbCallback True (Some scenario_info)"
  "hashes (db (scenario_world c fs)) FacebookUserIdToUserIden (fb_id scenario_info) = None"
  by (simp_all add: getFacebookUserInfo_def scenario_defs)

theorem new_user_order_witness:
  "map step_of (new_events (scenario_world None [])
       (snd (scenario_login [None, None, Some (Err ''io'')])))
     = [Start (Redis (HGet FacebookUserIdToUserIden ''fb1'')),
        End (Redis (HGet FacebookUserIdToUserIden ''fb1'')),
        Start (Redis (HSet Users ''c1'' ''c1'')), End (Redis (HSet Users ''c1'' ''c1'')),
        Start (Redis (HSet UserIdenToAccessToken ''c1'' ''ab12'')),
        End (Redis (HSet UserIdenToAccessToken ''c1'' ''ab12''))]
   \<and> fst (scenario_login [None, None, Some (Err ''io'')]) = Status 500
   \<and> hashes (db (snd (scenario_login [None, None, Some (Err ''io'')])))
         FacebookUserIdToUserIden ''fb1'' = None
   \<and> fst (scenario_login []) = AccessToken ''ab12''
   \<and> hashes (db (snd (scenario_login []))) FacebookUserIdToUserIden ''fb1'' = Some ''c1''"
proof -
  let ?E = "scenario_env (scenario_event [] []) accepting"
  let ?b = "scenario_body JUndefined"
  let ?fs = "[None, None, Some (Err ''io'')]"
  have run: "authenticate ?E scenario_rnd ?b (scenario_world None fs)
      = (fst (scenario_login fs), snd (scenario_login fs))" for fs
    by (simp add: scenario_login_def)
  have n: "nth_fault (faults (scenario_world None ?fs)) 0 = None"
    "nth_fault (faults (scenario_world None [])) 0 = None"
    by (simp_all add: scenario_world_def)
  note th = new_user_is_written_in_order
      [where E = ?E and b = ?b and info = scenario_info, OF scenario_identity(1) _ scenario_identity(2) run]
  from th [OF n(1), THEN conjunct1, rule_format, of "Suc 0" "Err ''io''"]
    th [OF n(2), THEN conjunct2]
  show ?thesis
    by (simp add: scenario_world_def new_events_def new_user_cmds_def new_user_def
          scenario_rnd_def scenario_info_def scenario_env_def All_less_Suc)
qed

lemma authenticate_known:
  assumes "getFacebookUserInfo E (b ''facebookToken'') = FbCallback True (Some info)"
    and "faults w = []"
    and "hashes (db w) FacebookUserIdToUserIden (fb_id info) = Some i" and "i \<noteq> []"
  shows "fst (authenticate E R b w) =
           (case hashes (db w) UserIdenToAccessToken i of
              None \<Rightarrow> Status 500
            | Some t \<Rightarrow> if t \<noteq> [] then AccessToken t else Status 500)"
    and "db (snd (authenticate E R b w)) = db w"
    and "faults (snd (authenticate E R b w)) = []"
  using assms
  by (simp_all add: authenticate_def hget_call console_error_def split: option.splits)

lemma authenticate_unknown:
  assumes "getFacebookUserInfo E (b ''facebookToken'') = FbCallback True (Some info)"
    and "faults w = []"
    and "hashes (db w) FacebookUserIdToUserIden (fb_id info) = None
         \<or> hashes (db w) FacebookUserIdToUserIden (fb_id info) = Some []"
  shows "fst (authenticate E R b w) = AccessToken (randomHex R)"
    and "faults (snd (authenticate E R b w)) = []"
    and "hashes (db (snd (authenticate E R b w))) FacebookUserIdToUserIden (fb_id info)
           = Some (generateIden R)"
    and "hashes (db (snd (authenticate E R b w))) UserIdenToAccessToken (generateIden R)
           = Some (randomHex R)"
  using assms
  by (auto simp: authenticate_def hget_call series_eval)

text \<open>
  C6: with a verified identity and no failure of the store, a second call answers what
  the first one answered and writes nothing; for an identity without a user the answer
  is the token the first call created.
\<close>

theorem authenticate_twice_same_token:
  assumes "getFacebookUserInfo E (b ''facebookToken'') = FbCallback True (Some info)"
    and "faults w = []"
    and "generateIden R \<noteq> []" and "randomHex R \<noteq> []"
    and "authenticate E R b w = (resp, w')"
  shows "fst (authenticate E R' b w') = resp
       \<and> db (snd (authenticate E R' b w')) = db w'
       \<and> (hashes (db w) FacebookUserIdToUserIden (fb_id info) = None \<longrightarrow>
            resp = AccessToken (randomHex R))"
proof -
  from assms(5) have r: "resp = fst (authenticate E R b w)"
    and w': "w' = snd (authenticate E R b w)"
    by simp_all
  show ?thesis
  proof (cases "hashes (db w) FacebookUserIdToUserIden (fb_id info) = None
         \<or> hashes (db w) FacebookUserIdToUserIden (fb_id info) = Some []")
    case True
    note u = authenticate_unknown [where E = E and b = b and w = w and info = info and R = R,
               OF assms(1,2) True]
    have f: "faults w' = []"
      and i: "hashes (db w') FacebookUserIdToUserIden (fb_id info) = Some (generateIden R)"
      and t: "hashes (db w') UserIdenToAccessToken (generateIden R) = Some (randomHex R)"
      using u(2,3,4) w' by simp_all
    note k = authenticate_known [where E = E and b = b and w = w' and info = info and R = R',
               OF assms(1) f i assms(3)]
    from k(1,2) t assms(4) u(1) r show ?thesis by simp
  next
    case False
    then obtain i where i: "hashes (db w) FacebookUserIdToUserIden (fb_id info) = Some i"
      and n: "i \<noteq> []"
      by (cases "hashes (db w) FacebookUserIdToUserIden (fb_id info)") auto
    note k = authenticate_known [where E = E and b = b and w = w and info = info and R = R,
               OF assms(1,2) i n]
    have f: "faults w' = []" and d: "db w' = db w" using k(2,3) w' by simp_all
    from i d have i': "hashes (db w') FacebookUserIdToUserIden (fb_id info) = Some i" by simp
    note k' = authenticate_known [where E = E and b = b and w = w' and info = info and R = R',
               OF assms(1) f i' n]
    from k(1) k'(1,2) d r i show ?thesis by simp
  qed
qed

theorem authenticate_twice_witness:
  "fst (scenario_login []) = AccessToken ''ab12''
   \<and> fst (authenticate (scenario_env (scenario_event [] []) accepting) later_rnd
            (scenario_body JUndefined) (snd (scenario_login []))) = AccessToken ''ab12''"
proof -
  let ?E = "scenario_env (scenario_event [] []) accepting"
  let ?b = "scenario_body JUndefined"
  have run: "authenticate ?E scenario_rnd ?b (scenario_world None [])
      = (fst (scenario_login []), snd (scenario_login []))"
    by (simp add: scenario_login_def)
  have f: "faults (scenario_world None []) = []" by (simp add: scenario_world_def)
  have g: "generateIden scenario_rnd \<noteq> []" "randomHex scenario_rnd \<noteq> []"
    by (simp_all add: scenario_rnd_def)
  from authenticate_twice_same_token
         [where E = ?E and b = ?b and info = scenario_info and R' = later_rnd,
          OF scenario_identity(1) f g run]
  show ?thesis
    by (simp add: scenario_identity(2) scenario_rnd_def)
qed

end
